theory Spec2Isabelle
  imports Complex_Main "HOL-Library.Log_Nat"
begin

unbundle bit_operations_syntax

section \<open>Python numerics and the random source\<close>

text \<open>
  Python floats are modelled as reals, and every float literal of the source is the rational
  it denotes (\<open>0.3\<close> is \<open>3/10\<close>). In the severity and in the damage rules float
  arithmetic is exact. In the scheduling rule, where a float product is truncated to the
  integer bound of a draw, each float operation is the exact operation followed by rounding
  to the nearest double. Not-a-number and the infinities have no counterpart here. Python
  integers are unbounded and are \<open>int\<close>.
\<close>

text \<open>\<open>int(x)\<close> on a float truncates toward zero.\<close>

definition py_int :: "real \<Rightarrow> int" where
  "py_int x = (if 0 \<le> x then \<lfloor>x\<rfloor> else \<lceil>x\<rceil>)"

text \<open>\<open>round(x)\<close> on a float rounds to the nearest integer, a tie going to the even one.\<close>

definition py_round :: "real \<Rightarrow> int" where
  "py_round x =
     (let f = \<lfloor>x\<rfloor>; r = x - of_int f
      in if r < 1 / 2 then f
         else if 1 / 2 < r then f + 1
         else if even f then f else f + 1)"

text \<open>
  Rounding to the nearest double (IEEE 754 binary64, ties to even). A double is an integer
  of at most 53 bits times a power of two whose exponent is at least \<open>-1074\<close>;
  \<open>double_exponent x\<close> is that exponent for the doubles next to \<open>x\<close>. Overflow to
  infinity is left out.
\<close>

definition double_exponent :: "real \<Rightarrow> int" where
  "double_exponent x =
     (if 1 \<le> \<bar>x\<bar> then bitlen \<lfloor>\<bar>x\<bar>\<rfloor> - 53
      else max (- bitlen (\<lceil>1 / \<bar>x\<bar>\<rceil> - 1) - 52) (- 1074))"

definition double_round :: "real \<Rightarrow> real" where
  "double_round x =
     (let e = double_exponent x
      in real_of_int (py_round (x / 2 powi e)) * 2 powi e)"

text \<open>The float operations of the scheduling rule: \<open>+\<close>, \<open>-\<close>, \<open>*\<close> and \<open>float(n)\<close>.\<close>

definition float_add :: "real \<Rightarrow> real \<Rightarrow> real" where
  "float_add a b = double_round (a + b)"

definition float_sub :: "real \<Rightarrow> real \<Rightarrow> real" where
  "float_sub a b = double_round (a - b)"

definition float_mul :: "real \<Rightarrow> real \<Rightarrow> real" where
  "float_mul a b = double_round (a * b)"

definition float_of_int :: "int \<Rightarrow> real" where
  "float_of_int n = double_round (real_of_int n)"

datatype error = ValueError | IndexError

text \<open>
  A \<open>random.Random\<close> object is the sequence of the raw results of its future draws: draw
  number \<open>i\<close> from now is \<open>g i\<close>. Each method call consumes the head of the sequence and
  maps it into the range the method returns, so every behaviour of a seeded generator is
  the behaviour of one such sequence.
\<close>

type_synonym rng = "nat \<Rightarrow> nat"

definition rng_tail :: "rng \<Rightarrow> rng" where
  "rng_tail g = (\<lambda>i. g (Suc i))"

text \<open>\<open>Random.random()\<close>: a multiple of \<open>2^-53\<close> in \<open>[0, 1)\<close>.\<close>

definition rng_random :: "rng \<Rightarrow> real \<times> rng" where
  "rng_random g = (real (g 0 mod 2 ^ 53) / 2 ^ 53, rng_tail g)"

text \<open>
  \<open>Random.randint(a, b)\<close>: an integer of \<open>[a, b]\<close>; \<open>randrange\<close> raises
  \<open>ValueError\<close> on an empty range.
\<close>

definition rng_randint :: "rng \<Rightarrow> int \<Rightarrow> int \<Rightarrow> error + (int \<times> rng)" where
  "rng_randint g a b =
     (if b < a then Inl ValueError
      else Inr (a + int (g 0) mod (b - a + 1), rng_tail g))"

text \<open>\<open>itertools.accumulate\<close>: the running sums.\<close>

fun accumulate_from :: "real \<Rightarrow> real list \<Rightarrow> real list" where
  "accumulate_from acc [] = []"
| "accumulate_from acc (w # ws) = (acc + w) # accumulate_from (acc + w) ws"

definition accumulate :: "real list \<Rightarrow> real list" where
  "accumulate ws = accumulate_from 0 ws"

text \<open>\<open>bisect.bisect_right(a, x, lo, hi)\<close>: the binary search loop as it is written.\<close>

function bisect_right :: "real list \<Rightarrow> real \<Rightarrow> nat \<Rightarrow> nat \<Rightarrow> nat" where
  "bisect_right a x lo hi =
     (if lo < hi
      then (let mid = (lo + hi) div 2
            in if x < a ! mid then bisect_right a x lo mid
               else bisect_right a x (mid + 1) hi)
      else lo)"
  by pat_completeness auto
termination
  by (relation "measure (\<lambda>(a, x, lo, hi). hi - lo)") auto

declare bisect_right.simps [simp del]

text \<open>
  \<open>Random.choices(population, weights=weights, k=1)[0]\<close> (CPython 3.9 and later): the
  cumulative weights, the check that their total is positive, one call of \<open>random()\<close>
  and the bisection up to index \<open>n - 1\<close>.
\<close>

definition rng_choices :: "rng \<Rightarrow> 'a list \<Rightarrow> real list \<Rightarrow> error + ('a \<times> rng)" where
  "rng_choices g population weights =
     (let n = length population;
          cum_weights = accumulate weights
      in if length cum_weights \<noteq> n then Inl ValueError
         else if cum_weights = [] then Inl IndexError
         else (let total = last cum_weights
               in if total \<le> 0 then Inl ValueError
                  else (let (u, g') = rng_random g;
                            i = bisect_right cum_weights (u * total) 0 (n - 1)
                        in Inr (population ! i, g'))))"

text \<open>\<open>dict.get(key, default)\<close> on a dictionary given as an association list.\<close>

definition dict_get :: "('k \<times> 'v) list \<Rightarrow> 'k \<Rightarrow> 'v \<Rightarrow> 'v" where
  "dict_get d k dflt = (case map_of d k of None \<Rightarrow> dflt | Some v \<Rightarrow> v)"

section \<open>Data model\<close>

type_synonym coord = "int \<times> int"

record SettlementState =
  resources :: int
  population :: int
  buildings :: int
  defenses :: int
  location :: "coord option"

text \<open>The fields of \<open>WorldSettings\<close> that the event layer reads.\<close>

record WorldSettings =
  seed :: int
  weather_patterns :: "(string \<times> real) list"
  moisture :: real
  disaster_intensity :: real
  plate_activity :: real
  world_changes :: bool

text \<open>
  The world, its tiles and its river segments are declared outside the two source files;
  they are taken as the events use them. A tile is looked up by coordinate, and the object
  that \<open>world.get\<close> returns is the one stored in the world, so a field assignment on it is an
  update of the stored tile. The noise function \<open>perlin_noise(x, y, seed, scale)\<close> is a
  parameter carried by the world.
\<close>

record Hex =
  terrain :: string
  flooded :: bool
  ruined :: bool
  river :: bool
  lake :: bool
  tile_moisture :: real
  coord :: coord

record Segment =
  seg_start :: coord
  seg_end :: coord

record World =
  settings :: WorldSettings
  tiles :: "coord \<rightharpoonup> Hex"
  rivers :: "Segment list"
  lakes :: "coord list"
  perlin_noise :: "int \<Rightarrow> int \<Rightarrow> int \<Rightarrow> real \<Rightarrow> real"

definition world_get :: "World \<Rightarrow> coord \<Rightarrow> Hex option" where
  "world_get world c = tiles world c"

definition put_tile :: "World \<Rightarrow> coord \<Rightarrow> Hex \<Rightarrow> World" where
  "put_tile world c h = world\<lparr>tiles := (tiles world)(c \<mapsto> h)\<rparr>"

datatype Event = Flood | Drought | Raid | Earthquake | Hurricane

section \<open>Severity\<close>

text \<open>
  \<open>Event.severity\<close>. The argument \<open>mk\<close> is \<open>random.Random(k)\<close>: the generator that the
  library builds from an integer seed.
\<close>

definition severity :: "(int \<Rightarrow> rng) \<Rightarrow> SettlementState \<Rightarrow> World \<Rightarrow> real" where
  "severity mk state world =
     (let base =
        (case location state of
           None \<Rightarrow> 1
         | Some (x, y) \<Rightarrow>
             (let n = perlin_noise world x y (seed (settings world)) (1 / 10);
                  base = 3 / 10 + n * 3;
                  rnd = fst (rng_random
                          (mk (push_bit 16 x XOR push_bit 8 y XOR seed (settings world))))
                        - 1 / 2
              in base * (1 + rnd * (2 / 10))))
      in base * (1 + disaster_intensity (settings world)))"

section \<open>Event variants\<close>

text \<open>
  Each \<open>apply\<close> mutates the settlement state and the world in place; the model returns
  both. The steps shared by Flood and Hurricane when a river tile is hit (the segment
  filter and the deduplicated append to \<open>world.lakes\<close>) are written once.
\<close>

definition sever_river :: "World \<Rightarrow> coord \<Rightarrow> World" where
  "sever_river world c =
     world\<lparr>rivers := filter (\<lambda>seg. seg_start seg \<noteq> c \<and> seg_end seg \<noteq> c) (rivers world),
           lakes := (if c \<in> set (lakes world) then lakes world else lakes world @ [c])\<rparr>"

definition Flood_apply ::
  "(int \<Rightarrow> rng) \<Rightarrow> SettlementState \<Rightarrow> World \<Rightarrow> error + (SettlementState \<times> World)" where
  "Flood_apply mk state world =
     (let sev = severity mk state world;
          rnd = mk ((case location state of Some (x, y) \<Rightarrow> x | None \<Rightarrow> 0) * 17
                    + (case location state of Some (x, y) \<Rightarrow> y | None \<Rightarrow> 0) * 23
                    + seed (settings world))
      in case rng_randint rnd 0 1 of
           Inl e \<Rightarrow> Inl e
         | Inr (r, rnd') \<Rightarrow>
             (let loss = max 0 (py_round (3 / 10 * real_of_int (buildings state) * sev)
                                - defenses state + r);
                  state = state\<lparr>buildings := max 0 (buildings state - loss)\<rparr>;
                  res_loss = min (resources state) (py_round (real_of_int loss * 2 * sev));
                  state = state\<lparr>resources := resources state - res_loss\<rparr>
              in case location state of
                   None \<Rightarrow> Inr (state, world)
                 | Some loc \<Rightarrow>
                     if \<not> world_changes (settings world) then Inr (state, world)
                     else (case world_get world loc of
                             None \<Rightarrow> Inr (state, world)
                           | Some hex \<Rightarrow>
                               (let hex = hex\<lparr>flooded := True\<rparr>
                                in if 13 / 10 < sev
                                   then (let (hex, world) =
                                               (if river hex
                                                then (hex\<lparr>river := False, lake := True,
                                                          terrain := ''water''\<rparr>,
                                                      sever_river world (coord hex))
                                                else (hex, world));
                                             hex = (if terrain hex = ''hills''
                                                    then hex\<lparr>terrain := ''mountains''\<rparr>
                                                    else hex\<lparr>terrain := ''water'', lake := True\<rparr>)
                                         in Inr (state, put_tile world loc hex))
                                   else Inr (state, put_tile world loc hex)))))"

definition Drought_apply ::
  "(int \<Rightarrow> rng) \<Rightarrow> SettlementState \<Rightarrow> World \<Rightarrow> error + (SettlementState \<times> World)" where
  "Drought_apply mk state world =
     (let sev = severity mk state world;
          res_loss = py_int (2 / 10 * real_of_int (resources state) * sev);
          state = state\<lparr>resources := max 0 (resources state - res_loss)\<rparr>;
          pop_loss = py_int (1 / 10 * real_of_int (population state) * sev);
          state = state\<lparr>population := max 0 (population state - pop_loss)\<rparr>
      in case location state of
           None \<Rightarrow> Inr (state, world)
         | Some loc \<Rightarrow>
             if \<not> world_changes (settings world) then Inr (state, world)
             else (case world_get world loc of
                     None \<Rightarrow> Inr (state, world)
                   | Some hex \<Rightarrow>
                       (let hex = hex\<lparr>tile_moisture := max 0 (tile_moisture hex - 1 / 10 * sev)\<rparr>
                        in if 13 / 10 < sev
                           then (if lake hex
                                 then Inr (state,
                                        (put_tile world loc (hex\<lparr>lake := False, terrain := ''plains''\<rparr>))
                                          \<lparr>lakes := filter (\<lambda>c. c \<noteq> coord hex) (lakes world)\<rparr>)
                                 else Inr (state, put_tile world loc (hex\<lparr>terrain := ''desert''\<rparr>)))
                           else Inr (state, put_tile world loc hex))))"

definition Raid_apply ::
  "(int \<Rightarrow> rng) \<Rightarrow> SettlementState \<Rightarrow> World \<Rightarrow> error + (SettlementState \<times> World)" where
  "Raid_apply mk state world =
     (let sev = severity mk state world;
          effective = max 1 (py_int (real_of_int (5 - defenses state) * sev));
          res_loss = min (resources state) (effective * 3);
          bld_loss = max 0 (effective - 1);
          state = state\<lparr>resources := resources state - res_loss\<rparr>;
          state = state\<lparr>buildings := max 0 (buildings state - bld_loss)\<rparr>
      in case location state of
           None \<Rightarrow> Inr (state, world)
         | Some loc \<Rightarrow>
             if \<not> world_changes (settings world) then Inr (state, world)
             else (case world_get world loc of
                     None \<Rightarrow> Inr (state, world)
                   | Some hex \<Rightarrow>
                       (let hex = hex\<lparr>ruined := True\<rparr>
                        in if 13 / 10 < sev
                           then (let state = state\<lparr>buildings := 0\<rparr>;
                                     hex = (if terrain hex = ''hills''
                                            then hex\<lparr>terrain := ''mountains''\<rparr> else hex)
                                 in Inr (state, put_tile world loc hex))
                           else Inr (state, put_tile world loc hex))))"

definition Earthquake_apply ::
  "(int \<Rightarrow> rng) \<Rightarrow> SettlementState \<Rightarrow> World \<Rightarrow> error + (SettlementState \<times> World)" where
  "Earthquake_apply mk state world =
     (let sev = severity mk state world;
          bld_loss = py_int (4 / 10 * real_of_int (buildings state) * sev);
          pop_loss = py_int (2 / 10 * real_of_int (population state) * sev);
          state = state\<lparr>buildings := max 0 (buildings state - bld_loss)\<rparr>;
          state = state\<lparr>population := max 0 (population state - pop_loss)\<rparr>
      in case location state of
           None \<Rightarrow> Inr (state, world)
         | Some loc \<Rightarrow>
             if \<not> world_changes (settings world) then Inr (state, world)
             else (case world_get world loc of
                     None \<Rightarrow> Inr (state, world)
                   | Some hex \<Rightarrow>
                       if 13 / 10 < sev
                       then Inr (state, put_tile world loc (hex\<lparr>terrain := ''mountains''\<rparr>))
                       else Inr (state, world)))"

definition Hurricane_apply ::
  "(int \<Rightarrow> rng) \<Rightarrow> SettlementState \<Rightarrow> World \<Rightarrow> error + (SettlementState \<times> World)" where
  "Hurricane_apply mk state world =
     (let sev = severity mk state world;
          loss = max 0 (py_int (3 / 10 * real_of_int (buildings state) * sev) - defenses state);
          state = state\<lparr>buildings := max 0 (buildings state - loss)\<rparr>;
          res_loss = min (resources state)
                         (py_int (real_of_int (resources state) * (3 / 10) * sev));
          state = state\<lparr>resources := resources state - res_loss\<rparr>
      in case location state of
           None \<Rightarrow> Inr (state, world)
         | Some loc \<Rightarrow>
             if \<not> world_changes (settings world) then Inr (state, world)
             else (case world_get world loc of
                     None \<Rightarrow> Inr (state, world)
                   | Some hex \<Rightarrow>
                       (let hex = hex\<lparr>flooded := True\<rparr>
                        in if 13 / 10 < sev
                           then (let (hex, world) =
                                       (if river hex
                                        then (hex\<lparr>river := False\<rparr>, sever_river world (coord hex))
                                        else (hex, world))
                                 in Inr (state,
                                      put_tile world loc (hex\<lparr>terrain := ''water'', lake := True\<rparr>)))
                           else Inr (state, put_tile world loc hex))))"

fun apply_event ::
  "(int \<Rightarrow> rng) \<Rightarrow> Event \<Rightarrow> SettlementState \<Rightarrow> World \<Rightarrow> error + (SettlementState \<times> World)" where
  "apply_event mk Flood state world = Flood_apply mk state world"
| "apply_event mk Drought state world = Drought_apply mk state world"
| "apply_event mk Raid state world = Raid_apply mk state world"
| "apply_event mk Earthquake state world = Earthquake_apply mk state world"
| "apply_event mk Hurricane state world = Hurricane_apply mk state world"

section \<open>The event system\<close>

record EventSystem =
  es_settings :: WorldSettings
  rng :: rng
  event_weights :: "(string \<times> real) list"
  turn_counter :: int
  next_event_turn :: int

definition min_base :: "WorldSettings \<Rightarrow> int" where
  "min_base s = 10 + py_int (float_mul (float_sub 1 (disaster_intensity s)) 20)"

definition max_base :: "WorldSettings \<Rightarrow> int" where
  "max_base s = 20 + py_int (float_mul (float_sub 1 (disaster_intensity s)) 40)"

text \<open>The local \<open>weather_factor\<close> of \<open>_schedule_next\<close>.\<close>

definition weather_factor :: "WorldSettings \<Rightarrow> real" where
  "weather_factor s = float_add 1 (float_mul (moisture s) (1 / 2))"

text \<open>
  \<open>EventSystem._schedule_next\<close>: the turn of the next event, with the system whose
  generator has made the draw.
\<close>

definition schedule_next :: "EventSystem \<Rightarrow> error + (int \<times> EventSystem)" where
  "schedule_next self =
     (case rng_randint (rng self) (min_base (es_settings self)) (max_base (es_settings self)) of
        Inl e \<Rightarrow> Inl e
      | Inr (base, g') \<Rightarrow>
          (let delay = max 2 (py_int (float_mul (float_of_int base)
                                        (weather_factor (es_settings self))))
           in Inr (turn_counter self + delay, self\<lparr>rng := g'\<rparr>)))"

definition ALL_EVENTS :: "Event list" where
  "ALL_EVENTS = [Flood, Drought, Raid, Earthquake, Hurricane]"

definition event_weight_list :: "EventSystem \<Rightarrow> real list" where
  "event_weight_list self =
     (let flood_base = dict_get (event_weights self) ''flood'' 1;
          drought_base = dict_get (event_weights self) ''drought'' 1;
          raid_base = dict_get (event_weights self) ''raid'' 1;
          earthquake_base = dict_get (event_weights self) ''earthquake'' 1;
          hurricane_base = dict_get (event_weights self) ''hurricane'' 1;
          s = es_settings self;
          flood_w = flood_base * dict_get (weather_patterns s) ''rain'' (1 / 10) * moisture s;
          drought_w = drought_base * dict_get (weather_patterns s) ''dry'' (1 / 10)
                      * (1 - moisture s);
          raid_w = raid_base;
          earthquake_w = earthquake_base * plate_activity s;
          hurricane_w = hurricane_base * dict_get (weather_patterns s) ''rain'' (1 / 10)
                        * moisture s
      in [flood_w, drought_w, raid_w, earthquake_w, hurricane_w])"

text \<open>\<open>EventSystem._choose_event\<close>: the weights above, then \<open>rng.choices\<close>.\<close>

definition choose_event :: "EventSystem \<Rightarrow> error + (Event \<times> EventSystem)" where
  "choose_event self =
     (case rng_choices (rng self) ALL_EVENTS (event_weight_list self) of
        Inl e \<Rightarrow> Inl e
      | Inr (event_cls, g') \<Rightarrow> Inr (event_cls, self\<lparr>rng := g'\<rparr>))"

definition default_event_weights :: "(string \<times> real) list" where
  "default_event_weights =
     [(''flood'', 1), (''drought'', 1), (''raid'', 1), (''earthquake'', 1), (''hurricane'', 1)]"

text \<open>
  \<open>EventSystem.__init__\<close>. With no generator given the constructor calls
  \<open>random.Random()\<close>, which the operating system seeds: \<open>entropy\<close> is the generator
  that call would return. An absent or empty weight dictionary is replaced by the default.
\<close>

definition EventSystem_init ::
  "rng \<Rightarrow> WorldSettings \<Rightarrow> rng option \<Rightarrow> (string \<times> real) list option \<Rightarrow> error + EventSystem" where
  "EventSystem_init entropy s rng_arg weights_arg =
     (let self = \<lparr>es_settings = s,
                  rng = (case rng_arg of Some g \<Rightarrow> g | None \<Rightarrow> entropy),
                  event_weights = (case weights_arg of
                                     None \<Rightarrow> default_event_weights
                                   | Some [] \<Rightarrow> default_event_weights
                                   | Some ws \<Rightarrow> ws),
                  turn_counter = 0,
                  next_event_turn = 0\<rparr>
      in case schedule_next self of
           Inl e \<Rightarrow> Inl e
         | Inr (t, self) \<Rightarrow> Inr (self\<lparr>next_event_turn := t\<rparr>))"

text \<open>\<open>EventSystem.advance_turn\<close>: the fired event if any, and the three mutated objects.\<close>

definition advance_turn ::
  "(int \<Rightarrow> rng) \<Rightarrow> EventSystem \<Rightarrow> SettlementState \<Rightarrow> World
     \<Rightarrow> error + (Event option \<times> EventSystem \<times> SettlementState \<times> World)" where
  "advance_turn mk self state world =
     (let self = self\<lparr>turn_counter := turn_counter self + 1\<rparr>
      in if next_event_turn self \<le> turn_counter self
         then (case choose_event self of
                 Inl e \<Rightarrow> Inl e
               | Inr (event, self) \<Rightarrow>
                   (case apply_event mk event state world of
                      Inl e \<Rightarrow> Inl e
                    | Inr (state, world) \<Rightarrow>
                        (case schedule_next self of
                           Inl e \<Rightarrow> Inl e
                         | Inr (t, self) \<Rightarrow>
                             Inr (Some event, self\<lparr>next_event_turn := t\<rparr>, state, world))))
         else Inr (None, self, state, world))"

text \<open>
  A driver making \<open>n\<close> calls of \<open>advance_turn\<close> on the same three objects: the list of the
  returned values in call order and the final objects. An exception ends the run.
\<close>

fun run_turns ::
  "(int \<Rightarrow> rng) \<Rightarrow> nat \<Rightarrow> EventSystem \<Rightarrow> SettlementState \<Rightarrow> World
     \<Rightarrow> error + (Event option list \<times> EventSystem \<times> SettlementState \<times> World)" where
  "run_turns mk 0 self state world = Inr ([], self, state, world)"
| "run_turns mk (Suc n) self state world =
     (case advance_turn mk self state world of
        Inl e \<Rightarrow> Inl e
      | Inr (fired, self, state, world) \<Rightarrow>
          (case run_turns mk n self state world of
             Inl e \<Rightarrow> Inl e
           | Inr (rest, self, state, world) \<Rightarrow> Inr (fired # rest, self, state, world)))"

text \<open>A run from the construction of the event system on.\<close>

definition simulate ::
  "(int \<Rightarrow> rng) \<Rightarrow> rng \<Rightarrow> WorldSettings \<Rightarrow> rng option \<Rightarrow> (string \<times> real) list option
     \<Rightarrow> nat \<Rightarrow> SettlementState \<Rightarrow> World
     \<Rightarrow> error + (Event option list \<times> EventSystem \<times> SettlementState \<times> World)" where
  "simulate mk entropy s rng_arg weights_arg n state world =
     (case EventSystem_init entropy s rng_arg weights_arg of
        Inl e \<Rightarrow> Inl e
      | Inr self \<Rightarrow> run_turns mk n self state world)"

section \<open>Properties of tiles and the damage rules as the specification words them\<close>

text \<open>
  Modelled from the spec: the terrain types that cannot hold water. The terrain vocabulary is
  declared with the world, outside the two source files; the specification names desert and
  mountains as the types a river tile must not have.
\<close>

definition water_compatible :: "string \<Rightarrow> bool" where
  "water_compatible t = (t \<noteq> ''desert'' \<and> t \<noteq> ''mountains'')"

definition tile_consistent :: "Hex \<Rightarrow> bool" where
  "tile_consistent h = (river h \<longrightarrow> water_compatible (terrain h))"

text \<open>The tile stored at a coordinate after an \<open>apply\<close>, and the settlement after it.\<close>

definition tile_after :: "error + (SettlementState \<times> World) \<Rightarrow> coord \<Rightarrow> Hex option" where
  "tile_after r c = (case r of Inl e \<Rightarrow> None | Inr (state, world) \<Rightarrow> tiles world c)"

definition state_after :: "error + (SettlementState \<times> World) \<Rightarrow> SettlementState option" where
  "state_after r = (case r of Inl e \<Rightarrow> None | Inr (state, world) \<Rightarrow> Some state)"

text \<open>
  The arithmetic damage of each variant, written from the table of the specification
  (section 4.2) with \<open>int\<close> read as truncation: \<open>sev\<close> is the severity and \<open>r\<close> the
  noise term of the flood.
\<close>

fun damage_rules :: "Event \<Rightarrow> real \<Rightarrow> int \<Rightarrow> SettlementState \<Rightarrow> SettlementState" where
  "damage_rules Flood sev r st =
     (let loss = max 0 (py_round (3 / 10 * real_of_int (buildings st) * sev) - defenses st + r)
      in st\<lparr>buildings := max 0 (buildings st - loss),
            resources := resources st
                         - min (resources st) (py_round (real_of_int loss * 2 * sev))\<rparr>)"
| "damage_rules Drought sev r st =
     st\<lparr>resources := max 0 (resources st - py_int (2 / 10 * real_of_int (resources st) * sev)),
        population := max 0 (population st
                             - py_int (1 / 10 * real_of_int (population st) * sev))\<rparr>"
| "damage_rules Raid sev r st =
     (let effective = max 1 (py_int (real_of_int (5 - defenses st) * sev))
      in st\<lparr>resources := resources st - min (resources st) (effective * 3),
            buildings := max 0 (buildings st - max 0 (effective - 1))\<rparr>)"
| "damage_rules Earthquake sev r st =
     st\<lparr>buildings := max 0 (buildings st - py_int (4 / 10 * real_of_int (buildings st) * sev)),
        population := max 0 (population st
                             - py_int (2 / 10 * real_of_int (population st) * sev))\<rparr>"
| "damage_rules Hurricane sev r st =
     st\<lparr>buildings := max 0 (buildings st
                            - max 0 (py_int (3 / 10 * real_of_int (buildings st) * sev)
                                     - defenses st)),
        resources := resources st
                     - min (resources st) (py_int (real_of_int (resources st) * (3 / 10) * sev))\<rparr>"

text \<open>The noise term of the flood: the first \<open>randint(0, 1)\<close> of the generator seeded by place.\<close>

definition flood_noise :: "(int \<Rightarrow> rng) \<Rightarrow> SettlementState \<Rightarrow> World \<Rightarrow> int" where
  "flood_noise mk st w =
     int (mk ((case location st of Some (x, y) \<Rightarrow> x | None \<Rightarrow> 0) * 17
              + (case location st of Some (x, y) \<Rightarrow> y | None \<Rightarrow> 0) * 23
              + seed (settings w)) 0) mod 2"

text \<open>
  The scheduling rule in the words of the specification (section 4.3): both bounds rounded,
  a uniform integer drawn between them by the generator, the product with the weather factor
  floored and clamped to at least 2.
\<close>

definition schedule_next_rounded :: "EventSystem \<Rightarrow> error + (int \<times> EventSystem)" where
  "schedule_next_rounded self =
     (let lo = 10 + py_round (float_mul (float_sub 1 (disaster_intensity (es_settings self))) 20);
          hi = 20 + py_round (float_mul (float_sub 1 (disaster_intensity (es_settings self))) 40)
      in case rng_randint (rng self) lo hi of
           Inl e \<Rightarrow> Inl e
         | Inr (base, g') \<Rightarrow>
             Inr (turn_counter self
                    + max 2 \<lfloor>float_mul (float_of_int base) (weather_factor (es_settings self))\<rfloor>,
                  self\<lparr>rng := g'\<rparr>))"

text \<open>The same rule with the bounds truncated toward zero.\<close>

definition schedule_next_truncated :: "EventSystem \<Rightarrow> error + (int \<times> EventSystem)" where
  "schedule_next_truncated self =
     (let lo = 10 + py_int (float_mul (float_sub 1 (disaster_intensity (es_settings self))) 20);
          hi = 20 + py_int (float_mul (float_sub 1 (disaster_intensity (es_settings self))) 40)
      in case rng_randint (rng self) lo hi of
           Inl e \<Rightarrow> Inl e
         | Inr (base, g') \<Rightarrow>
             Inr (turn_counter self
                    + max 2 \<lfloor>float_mul (float_of_int base) (weather_factor (es_settings self))\<rfloor>,
                  self\<lparr>rng := g'\<rparr>))"

definition scheduled_turn :: "error + (int \<times> EventSystem) \<Rightarrow> error + int" where
  "scheduled_turn r = (case r of Inl e \<Rightarrow> Inl e | Inr (t, self) \<Rightarrow> Inr t)"

text \<open>
  The factor \<open>1 + rnd * 0.2\<close> of \<open>Event.severity\<close>, as a function of the coordinate and
  the seed.
\<close>

definition jitter :: "(int \<Rightarrow> rng) \<Rightarrow> int \<Rightarrow> int \<Rightarrow> int \<Rightarrow> real" where
  "jitter mk x y sd =
     1 + (fst (rng_random (mk (push_bit 16 x XOR push_bit 8 y XOR sd))) - 1 / 2) * (2 / 10)"

text \<open>The same world under another disaster intensity.\<close>

definition with_intensity :: "World \<Rightarrow> real \<Rightarrow> World" where
  "with_intensity w d = w\<lparr>settings := (settings w)\<lparr>disaster_intensity := d\<rparr>\<rparr>"

text \<open>
  The interval of the specification for the gap between the scheduled turn and the turn
  counter (section 8, scheduling bounds): \<open>[2, ceil(max_base * (1 + moisture * 0.5))]\<close>,
  the product evaluated as the code evaluates it.
\<close>

definition gap_in_bounds :: "WorldSettings \<Rightarrow> int \<Rightarrow> bool" where
  "gap_in_bounds s gap =
     (2 \<le> gap \<and> gap \<le> \<lceil>float_mul (float_of_int (max_base s)) (weather_factor s)\<rceil>)"

text \<open>The double nearest to \<open>0.05\<close>, which is what the literal \<open>0.05\<close> denotes in a run.\<close>

definition double_0_05 :: real where
  "double_0_05 = 3602879701896397 / 2 ^ 56"

text \<open>Two random sources that give the same first \<open>k\<close> draws.\<close>

definition agree :: "nat \<Rightarrow> rng \<Rightarrow> rng \<Rightarrow> bool" where
  "agree k g g' = (\<forall>i<k. g i = g' i)"

text \<open>Two event systems that differ at most in their random sources beyond \<open>k\<close> draws.\<close>

definition same_but_rng :: "nat \<Rightarrow> EventSystem \<Rightarrow> EventSystem \<Rightarrow> bool" where
  "same_but_rng k a b =
     (es_settings a = es_settings b \<and> event_weights a = event_weights b \<and>
      turn_counter a = turn_counter b \<and> next_event_turn a = next_event_turn b \<and>
      agree k (rng a) (rng b))"

text \<open>
  What a run shows: the fired events, the final settlement state and world, and the two
  counters of the event system.
\<close>

definition run_outcome ::
  "error + (Event option list \<times> EventSystem \<times> SettlementState \<times> World)
     \<Rightarrow> error + (Event option list \<times> SettlementState \<times> World \<times> int \<times> int)" where
  "run_outcome r =
     (case r of
        Inl e \<Rightarrow> Inl e
      | Inr (fired, self, state, world) \<Rightarrow>
          Inr (fired, state, world, turn_counter self, next_event_turn self))"

section \<open>Example inputs\<close>

text \<open>A seeded-generator constructor whose generators always draw zero.\<close>

definition mk0 :: "int \<Rightarrow> rng" where
  "mk0 k = (\<lambda>i. 0)"

text \<open>The default \<open>WorldSettings\<close> with a chosen disaster intensity.\<close>

definition example_settings :: "real \<Rightarrow> WorldSettings" where
  "example_settings d =
     \<lparr>seed = 0,
      weather_patterns = [(''rain'', 3 / 10), (''dry'', 1 / 2), (''snow'', 2 / 10)],
      moisture = 1 / 2,
      disaster_intensity = d,
      plate_activity = 1 / 2,
      world_changes = True\<rparr>"

text \<open>The default \<open>SettlementState\<close> placed at the origin, with chosen defenses.\<close>

definition example_state :: "int \<Rightarrow> SettlementState" where
  "example_state df =
     \<lparr>resources = 100, population = 100, buildings = 10, defenses = df,
      location = Some (0, 0)\<rparr>"

definition river_tile :: Hex where
  "river_tile =
     \<lparr>terrain = ''plains'', flooded = False, ruined = False, river = True, lake = False,
      tile_moisture = 1 / 2, coord = (0, 0)\<rparr>"

text \<open>
  A world with a constant noise field \<open>n\<close>, disaster intensity \<open>d\<close> and the given tiles.
\<close>

definition example_world :: "real \<Rightarrow> real \<Rightarrow> (coord \<rightharpoonup> Hex) \<Rightarrow> World" where
  "example_world n d ts =
     \<lparr>settings = example_settings d, tiles = ts, rivers = [], lakes = [],
      perlin_noise = (\<lambda>x y s sc. n)\<rparr>"

definition example_system :: "WorldSettings \<Rightarrow> (string \<times> real) list \<Rightarrow> EventSystem" where
  "example_system s ws =
     \<lparr>es_settings = s, rng = (\<lambda>i. 0), event_weights = ws, turn_counter = 0,
      next_event_turn = 0\<rparr>"

text \<open>Whether the settlement stands on a tile that carries a river.\<close>

definition settlement_on_river :: "SettlementState \<Rightarrow> World \<Rightarrow> bool" where
  "settlement_on_river st w =
     (case location st of
        None \<Rightarrow> False
      | Some loc \<Rightarrow> (case world_get w loc of None \<Rightarrow> False | Some h \<Rightarrow> river h))"

text \<open>The river tile after a severe flood.\<close>

definition flooded_river_tile :: Hex where
  "flooded_river_tile =
     river_tile\<lparr>flooded := True, river := False, lake := True, terrain := ''water''\<rparr>"

text \<open>Settings under which every computed event weight is zero once the raid weight is.\<close>

definition zero_settings :: WorldSettings where
  "zero_settings =
     (example_settings 0)\<lparr>moisture := 0, plate_activity := 0,
                           weather_patterns := [(''rain'', 0), (''dry'', 0)]\<rparr>"

text \<open>Settings whose weather patterns name neither rain nor dry.\<close>

definition keyless_settings :: WorldSettings where
  "keyless_settings = (example_settings 0)\<lparr>weather_patterns := [(''snow'', 2 / 10)]\<rparr>"

text \<open>A random source that draws zero three times and seven from then on.\<close>

definition late_generator :: rng where
  "late_generator = (\<lambda>i. if i < 3 then 0 else 7)"

section \<open>Non-negative counters\<close>

lemma Flood_apply_nonneg:
  assumes "0 \<le> resources st" "0 \<le> population st" "0 \<le> buildings st" "0 \<le> defenses st"
  shows "\<exists>st' w'. Flood_apply mk st w = Inr (st', w') \<and> 0 \<le> resources st' \<and>
           0 \<le> population st' \<and> 0 \<le> buildings st' \<and> 0 \<le> defenses st'"
  using assms
  by (auto simp: Flood_apply_def rng_randint_def Let_def split: option.splits prod.splits)

lemma Drought_apply_nonneg:
  assumes "0 \<le> resources st" "0 \<le> population st" "0 \<le> buildings st" "0 \<le> defenses st"
  shows "\<exists>st' w'. Drought_apply mk st w = Inr (st', w') \<and> 0 \<le> resources st' \<and>
           0 \<le> population st' \<and> 0 \<le> buildings st' \<and> 0 \<le> defenses st'"
  using assms
  by (auto simp: Drought_apply_def Let_def split: option.splits prod.splits)

lemma Raid_apply_nonneg:
  assumes "0 \<le> resources st" "0 \<le> population st" "0 \<le> buildings st" "0 \<le> defenses st"
  shows "\<exists>st' w'. Raid_apply mk st w = Inr (st', w') \<and> 0 \<le> resources st' \<and>
           0 \<le> population st' \<and> 0 \<le> buildings st' \<and> 0 \<le> defenses st'"
  using assms
  by (auto simp: Raid_apply_def Let_def split: option.splits prod.splits)

lemma Earthquake_apply_nonneg:
  assumes "0 \<le> resources st" "0 \<le> population st" "0 \<le> buildings st" "0 \<le> defenses st"
  shows "\<exists>st' w'. Earthquake_apply mk st w = Inr (st', w') \<and> 0 \<le> resources st' \<and>
           0 \<le> population st' \<and> 0 \<le> buildings st' \<and> 0 \<le> defenses st'"
  using assms
  by (auto simp: Earthquake_apply_def Let_def split: option.splits prod.splits)

lemma Hurricane_apply_nonneg:
  assumes "0 \<le> resources st" "0 \<le> population st" "0 \<le> buildings st" "0 \<le> defenses st"
  shows "\<exists>st' w'. Hurricane_apply mk st w = Inr (st', w') \<and> 0 \<le> resources st' \<and>
           0 \<le> population st' \<and> 0 \<le> buildings st' \<and> 0 \<le> defenses st'"
  using assms
  by (auto simp: Hurricane_apply_def Let_def split: option.splits prod.splits)

text \<open>
  Claim C1. For each of the five variants, every settlement state whose four counters are
  non-negative and every world, \<open>apply\<close> returns, and resources, population, buildings and
  defenses of the state it leaves are all non-negative.
\<close>

theorem apply_event_nonneg:
  assumes "0 \<le> resources st" "0 \<le> population st" "0 \<le> buildings st" "0 \<le> defenses st"
  shows "\<exists>st' w'. apply_event mk ev st w = Inr (st', w') \<and> 0 \<le> resources st' \<and>
           0 \<le> population st' \<and> 0 \<le> buildings st' \<and> 0 \<le> defenses st'"
proof (cases ev)
  case Flood
  then show ?thesis using Flood_apply_nonneg [OF assms] by simp
next
  case Drought
  then show ?thesis using Drought_apply_nonneg [OF assms] by simp
next
  case Raid
  then show ?thesis using Raid_apply_nonneg [OF assms] by simp
next
  case Earthquake
  then show ?thesis using Earthquake_apply_nonneg [OF assms] by simp
next
  case Hurricane
  then show ?thesis using Hurricane_apply_nonneg [OF assms] by simp
qed

theorem apply_event_nonneg_witness:
  "0 \<le> resources (example_state 0) \<and> 0 \<le> population (example_state 0) \<and>
   0 \<le> buildings (example_state 0) \<and> 0 \<le> defenses (example_state 0) \<and>
   (\<exists>st' w'. apply_event mk0 Raid (example_state 0)
                (example_world (1 / 2) 0 [(0, 0) \<mapsto> river_tile]) = Inr (st', w') \<and>
      0 \<le> resources st' \<and> 0 \<le> population st' \<and> 0 \<le> buildings st' \<and> 0 \<le> defenses st')"
  using apply_event_nonneg [of "example_state 0" mk0 Raid
          "example_world (1 / 2) 0 [(0, 0) \<mapsto> river_tile]"]
  by (simp add: example_state_def)

section \<open>The example inputs evaluated\<close>

lemma example_state_fields:
  "resources (example_state df) = 100" "population (example_state df) = 100"
  "buildings (example_state df) = 10" "defenses (example_state df) = df"
  "location (example_state df) = Some (0, 0)"
  by (simp_all add: example_state_def)

lemma example_world_fields:
  "settings (example_world n d ts) = example_settings d"
  "tiles (example_world n d ts) = ts"
  "rivers (example_world n d ts) = []"
  "lakes (example_world n d ts) = []"
  "perlin_noise (example_world n d ts) = (\<lambda>x y s sc. n)"
  by (simp_all add: example_world_def)

lemma example_settings_fields:
  "seed (example_settings d) = 0" "moisture (example_settings d) = 1 / 2"
  "disaster_intensity (example_settings d) = d" "plate_activity (example_settings d) = 1 / 2"
  "world_changes (example_settings d)"
  by (simp_all add: example_settings_def)

lemma severity_example:
  "severity mk0 (example_state df) (example_world n d ts) = (3 / 10 + n * 3) * (9 / 10) * (1 + d)"
  by (simp add: severity_def example_state_fields example_world_fields example_settings_fields
        mk0_def rng_random_def Let_def)

lemma example_system_fields:
  "es_settings (example_system s ws) = s" "rng (example_system s ws) = (\<lambda>i. 0)"
  "event_weights (example_system s ws) = ws" "turn_counter (example_system s ws) = 0"
  "next_event_turn (example_system s ws) = 0"
  by (simp_all add: example_system_def)

section \<open>Severity: sign and monotonicity\<close>

lemma rng_random_range: "0 \<le> fst (rng_random g) \<and> fst (rng_random g) < 1"
proof -
  have "g 0 mod 2 ^ 53 < (2::nat) ^ 53" by simp
  then have "real (g 0 mod 2 ^ 53) < real ((2::nat) ^ 53)"
    by (rule less_imp_of_nat_less)
  then show ?thesis by (simp add: rng_random_def)
qed

lemma jitter_pos: "0 < jitter mk x y sd"
proof -
  let ?u = "fst (rng_random (mk (push_bit 16 x XOR push_bit 8 y XOR sd)))"
  have "0 \<le> ?u" using rng_random_range by simp
  then have "0 < 9 / 10 + ?u / 5" by (simp add: add_pos_nonneg)
  moreover have "jitter mk x y sd = 9 / 10 + ?u / 5"
    by (simp add: jitter_def algebra_simps)
  ultimately show ?thesis by simp
qed

lemma severity_None:
  "location st = None \<Longrightarrow> severity mk st w = 1 + disaster_intensity (settings w)"
  by (simp add: severity_def)

lemma severity_Some:
  "location st = Some (x, y) \<Longrightarrow>
   severity mk st w =
     (3 / 10 + perlin_noise w x y (seed (settings w)) (1 / 10) * 3)
       * jitter mk x y (seed (settings w)) * (1 + disaster_intensity (settings w))"
  by (simp add: severity_def jitter_def Let_def)

text \<open>
  Claim C4, as amended. With a disaster intensity of at least zero the severity is strictly
  positive exactly when the settlement has no location or the noise value at its location
  is above \<open>-0.1\<close>: the base \<open>0.3 + 3 n\<close> has the sign of \<open>n + 0.1\<close>, and the jitter
  factor and \<open>1 + disaster_intensity\<close> are positive.
\<close>

theorem severity_positive_iff:
  assumes "0 \<le> disaster_intensity (settings w)"
  shows "0 < severity mk st w \<longleftrightarrow>
     (case location st of
        None \<Rightarrow> True
      | Some (x, y) \<Rightarrow> - (1 / 10) < perlin_noise w x y (seed (settings w)) (1 / 10))"
proof (cases "location st")
  case None
  then show ?thesis using assms by (simp add: severity_None)
next
  case (Some c)
  obtain x y where c: "c = (x, y)" by (cases c)
  have d: "0 < 1 + disaster_intensity (settings w)" using assms by simp
  have "0 < severity mk st w \<longleftrightarrow>
        0 < 3 / 10 + perlin_noise w x y (seed (settings w)) (1 / 10) * 3"
    using Some c d jitter_pos [of mk x y "seed (settings w)"]
    by (simp add: severity_Some zero_less_mult_iff)
  then show ?thesis using Some c by auto
qed

theorem severity_positive_iff_witness:
  "0 \<le> disaster_intensity (settings (example_world (1 / 2) 0 Map.empty)) \<and>
   0 < severity mk0 (example_state 0) (example_world (1 / 2) 0 Map.empty)"
  using severity_positive_iff [where w = "example_world (1 / 2) 0 Map.empty" and mk = mk0
          and st = "example_state 0"]
  by (simp add: example_state_def example_world_def example_settings_def)

text \<open>
  The claim as stated fails: a noise value of \<open>-1\<close>, inside \<open>[-1, 1]\<close>, at intensity zero
  gives a negative severity.
\<close>

theorem severity_positive_counterexample:
  "0 \<le> disaster_intensity (settings (example_world (- 1) 0 Map.empty)) \<and>
   perlin_noise (example_world (- 1) 0 Map.empty) 0 0 0 (1 / 10) = - 1 \<and>
   severity mk0 (example_state 0) (example_world (- 1) 0 Map.empty) < 0"
  by (simp add: severity_def example_state_def example_world_def example_settings_def
        mk0_def rng_random_def Let_def)

text \<open>
  Claim C5, as amended. For a settlement with no location, or whose noise value is at least
  \<open>-0.1\<close>, the severity is non-decreasing in the disaster intensity, everything else fixed.
\<close>

theorem severity_mono:
  assumes "d1 \<le> d2"
    and "case location st of
           None \<Rightarrow> True
         | Some (x, y) \<Rightarrow> - (1 / 10) \<le> perlin_noise w x y (seed (settings w)) (1 / 10)"
  shows "severity mk st (with_intensity w d1) \<le> severity mk st (with_intensity w d2)"
proof (cases "location st")
  case None
  then show ?thesis using assms by (simp add: severity_None with_intensity_def)
next
  case (Some c)
  obtain x y where c: "c = (x, y)" by (cases c)
  let ?b = "(3 / 10 + perlin_noise w x y (seed (settings w)) (1 / 10) * 3)
              * jitter mk x y (seed (settings w))"
  have "0 \<le> 3 / 10 + perlin_noise w x y (seed (settings w)) (1 / 10) * 3"
    using assms(2) Some c by simp
  then have b: "0 \<le> ?b" using jitter_pos [of mk x y "seed (settings w)"] by simp
  have "?b * (1 + d1) \<le> ?b * (1 + d2)"
    using b assms(1) by (intro mult_left_mono) simp_all
  then show ?thesis using Some c by (simp add: severity_Some with_intensity_def)
qed

theorem severity_mono_witness:
  "(0::real) \<le> 1 \<and>
   severity mk0 (example_state 0) (with_intensity (example_world (1 / 2) 0 Map.empty) 0)
     \<le> severity mk0 (example_state 0) (with_intensity (example_world (1 / 2) 0 Map.empty) 1)"
  using severity_mono [where ?d1.0 = 0 and ?d2.0 = 1 and st = "example_state 0"
          and w = "example_world (1 / 2) 0 Map.empty" and mk = mk0]
  by (simp add: example_state_def example_world_def)

text \<open>
  The claim as stated fails: with a noise value of \<open>-1\<close> the severity at intensity one is
  below the severity at intensity zero.
\<close>

theorem severity_mono_counterexample:
  "severity mk0 (example_state 0) (example_world (- 1) 1 Map.empty)
     < severity mk0 (example_state 0) (example_world (- 1) 0 Map.empty)"
  by (simp add: severity_def example_state_def example_world_def example_settings_def
        mk0_def rng_random_def Let_def)

section \<open>Rounding to doubles\<close>

lemma py_round_bounds: "\<lfloor>x\<rfloor> \<le> py_round x \<and> py_round x \<le> \<lfloor>x\<rfloor> + 1"
  by (simp add: py_round_def Let_def)

lemma py_round_of_int: "py_round (of_int n) = n"
  by (simp add: py_round_def Let_def)

lemma py_round_mono:
  assumes "a \<le> b"
  shows "py_round a \<le> py_round b"
proof (cases "\<lfloor>a\<rfloor> = \<lfloor>b\<rfloor>")
  case True
  have "a - of_int \<lfloor>a\<rfloor> \<le> b - of_int \<lfloor>b\<rfloor>" using assms True by simp
  then show ?thesis using True by (auto simp: py_round_def Let_def)
next
  case False
  then have "\<lfloor>a\<rfloor> < \<lfloor>b\<rfloor>" using floor_mono [OF assms] by simp
  then show ?thesis using py_round_bounds [of a] py_round_bounds [of b] by linarith
qed

lemma bitlen_pos_bounds:
  assumes "0 < n"
  shows "1 \<le> bitlen n" and "2 ^ nat (bitlen n - 1) \<le> n" and "n < 2 ^ nat (bitlen n)"
proof -
  show "1 \<le> bitlen n" using assms by (auto simp: bitlen_alt_def)
  show "2 ^ nat (bitlen n - 1) \<le> n" using bitlen_bounds [OF assms] by simp
  show "n < 2 ^ nat (bitlen n)" using bitlen_bounds [OF assms] by simp
qed

lemma two_powi_neg: "0 \<le> k \<Longrightarrow> (2::real) powi (- k) = 1 / 2 ^ nat k"
  by (simp add: power_int_minus_divide power_int_nonneg_exp)

lemma double_exponent_ge: "- 1074 \<le> double_exponent x"
  using bitlen_nonneg [of "\<lfloor>\<bar>x\<bar>\<rfloor>"] by (simp add: double_exponent_def)

lemma double_exponent_upper:
  assumes "0 < x"
  shows "x < 2 powi (double_exponent x + 53)"
proof (cases "1 \<le> x")
  case True
  let ?n = "\<lfloor>x\<rfloor>"
  have n: "0 < ?n" using True by simp
  have "?n + 1 \<le> 2 ^ nat (bitlen ?n)" using bitlen_pos_bounds(3) [OF n] by simp
  then have "real_of_int (?n + 1) \<le> real_of_int (2 ^ nat (bitlen ?n))"
    by (rule of_int_le_iff [THEN iffD2])
  then have "x < 2 ^ nat (bitlen ?n)" by (simp add: floor_less_iff) linarith
  moreover have "(2::real) powi (bitlen ?n) = 2 ^ nat (bitlen ?n)"
    using bitlen_nonneg [of ?n] by (simp add: power_int_nonneg_exp)
  ultimately show ?thesis using True assms by (simp add: double_exponent_def)
next
  case False
  let ?n = "\<lceil>1 / x\<rceil> - 1"
  let ?b = "bitlen ?n"
  have "1 < 1 / x" using False assms by simp
  then have n: "0 < ?n" by (simp add: less_ceiling_iff)
  have b: "1 \<le> ?b" by (rule bitlen_pos_bounds(1) [OF n])
  have "real_of_int ?n < 1 / x" by (simp add: ceiling_correct)
  moreover have "real_of_int (2 ^ nat (?b - 1)) \<le> real_of_int ?n"
    using bitlen_pos_bounds(2) [OF n] by (rule of_int_le_iff [THEN iffD2])
  ultimately have "2 ^ nat (?b - 1) < 1 / x" by simp
  then have "x < 1 / 2 ^ nat (?b - 1)" using assms by (simp add: field_simps)
  also have "\<dots> = 2 powi (- (?b - 1))"
    using b by (intro two_powi_neg [symmetric]) simp
  also have "\<dots> \<le> 2 powi (double_exponent x + 53)"
    using False assms by (intro power_int_increasing) (simp_all add: double_exponent_def)
  finally show ?thesis .
qed

lemma double_exponent_lower:
  assumes "0 < x" and "double_exponent x \<noteq> - 1074"
  shows "2 powi (double_exponent x + 52) \<le> x"
proof (cases "1 \<le> x")
  case True
  let ?n = "\<lfloor>x\<rfloor>"
  have n: "0 < ?n" using True by simp
  have b: "1 \<le> bitlen ?n" by (rule bitlen_pos_bounds(1) [OF n])
  have "(2::real) ^ nat (bitlen ?n - 1) \<le> real_of_int ?n"
    using bitlen_pos_bounds(2) [OF n] by simp
  with of_int_floor_le [of x] have "2 ^ nat (bitlen ?n - 1) \<le> x" by linarith
  moreover have "(2::real) powi (bitlen ?n - 1) = 2 ^ nat (bitlen ?n - 1)"
    using b by (simp add: power_int_nonneg_exp)
  ultimately show ?thesis using True assms by (simp add: double_exponent_def)
next
  case False
  let ?n = "\<lceil>1 / x\<rceil> - 1"
  let ?b = "bitlen ?n"
  have e: "double_exponent x = - ?b - 52"
    using False assms by (auto simp: double_exponent_def max_def split: if_splits)
  have "1 < 1 / x" using False assms by simp
  then have n: "0 < ?n" by (simp add: less_ceiling_iff)
  have i: "\<lceil>1 / x\<rceil> \<le> 2 ^ nat ?b" using bitlen_pos_bounds(3) [OF n] by linarith
  have "1 / x \<le> real_of_int \<lceil>1 / x\<rceil>" by (rule le_of_int_ceiling)
  also have "\<dots> \<le> real_of_int (2 ^ nat ?b)" using i by (rule of_int_le_iff [THEN iffD2])
  also have "\<dots> = 2 ^ nat ?b" by simp
  finally have "1 / x \<le> 2 ^ nat ?b" .
  then have "1 / 2 ^ nat ?b \<le> x" using assms by (simp add: field_simps)
  moreover have "(2::real) powi (- ?b) = 1 / 2 ^ nat ?b"
    by (intro two_powi_neg) (rule bitlen_nonneg)
  ultimately show ?thesis using e by simp
qed

lemma double_exponent_mono:
  assumes "0 < x" and "x \<le> y"
  shows "double_exponent x \<le> double_exponent y"
proof (rule ccontr)
  assume "\<not> double_exponent x \<le> double_exponent y"
  then have lt: "double_exponent y < double_exponent x" by simp
  then have "double_exponent x \<noteq> - 1074" using double_exponent_ge [of y] by simp
  then have "2 powi (double_exponent x + 52) \<le> x" by (rule double_exponent_lower [OF assms(1)])
  also have "x \<le> y" by (rule assms(2))
  also have "y < 2 powi (double_exponent y + 53)"
    using assms by (intro double_exponent_upper) simp
  finally have "(2::real) powi (double_exponent x + 52) < 2 powi (double_exponent y + 53)" .
  moreover have "(2::real) powi (double_exponent y + 53) \<le> 2 powi (double_exponent x + 52)"
    using lt by (intro power_int_increasing) simp_all
  ultimately show False by simp
qed


lemma double_round_nonneg:
  assumes "0 \<le> x"
  shows "0 \<le> double_round x"
proof -
  have "0 \<le> x / 2 powi double_exponent x" using assms by simp
  then have "py_round 0 \<le> py_round (x / 2 powi double_exponent x)" by (rule py_round_mono)
  then have "0 \<le> py_round (x / 2 powi double_exponent x)" by (simp add: py_round_def)
  then show ?thesis by (simp add: double_round_def Let_def)
qed

lemma double_round_0: "double_round 0 = 0"
  by (simp add: double_round_def Let_def py_round_def)

lemma double_round_mono_pos:
  assumes "0 < x" and "x \<le> y"
  shows "double_round x \<le> double_round y"
proof -
  let ?ex = "double_exponent x" and ?ey = "double_exponent y"
  have y: "0 < y" using assms by simp
  have le: "?ex \<le> ?ey" by (rule double_exponent_mono [OF assms])
  show ?thesis
  proof (cases "?ex = ?ey")
    case True
    have "x / 2 powi ?ey \<le> y / 2 powi ?ey" using assms(2) by (simp add: divide_right_mono)
    then have "py_round (x / 2 powi ?ey) \<le> py_round (y / 2 powi ?ey)" by (rule py_round_mono)
    then have "real_of_int (py_round (x / 2 powi ?ey)) * 2 powi ?ey
                 \<le> real_of_int (py_round (y / 2 powi ?ey)) * 2 powi ?ey"
      by (intro mult_right_mono) simp_all
    then show ?thesis using True by (simp add: double_round_def Let_def)
  next
    case False
    then have lt: "?ex < ?ey" using le by simp
    then have ny: "?ey \<noteq> - 1074" using double_exponent_ge [of x] by simp
    let ?B = "(2::real) powi (?ey + 52)"
    \<comment> \<open>the rounding of \<open>y\<close> stays at or above the start of its binade\<close>
    have "?B \<le> y" by (rule double_exponent_lower [OF y ny])
    then have "?B / 2 powi ?ey \<le> y / 2 powi ?ey" by (simp add: divide_right_mono)
    moreover have "?B / 2 powi ?ey = real_of_int (2 ^ 52)"
      by (simp add: power_int_add)
    ultimately have "real_of_int (2 ^ 52) \<le> y / 2 powi ?ey" by simp
    then have "py_round (real_of_int (2 ^ 52)) \<le> py_round (y / 2 powi ?ey)"
      by (rule py_round_mono)
    then have "2 ^ 52 \<le> py_round (y / 2 powi ?ey)" by (simp only: py_round_of_int)
    then have "real_of_int (2 ^ 52) \<le> real_of_int (py_round (y / 2 powi ?ey))"
      by (rule of_int_le_iff [THEN iffD2])
    then have s: "real_of_int (2 ^ 52) * 2 powi ?ey
                 \<le> real_of_int (py_round (y / 2 powi ?ey)) * 2 powi ?ey"
      by (intro mult_right_mono) simp_all
    have "real_of_int (2 ^ 52) * 2 powi ?ey = ?B" by (simp add: power_int_add)
    with s have "?B \<le> real_of_int (py_round (y / 2 powi ?ey)) * 2 powi ?ey"
      by (simp only:)
    then have lower: "?B \<le> double_round y" by (simp only: double_round_def Let_def)
    \<comment> \<open>the rounding of \<open>x\<close> stays at or below the end of its binade\<close>
    let ?k = "nat (?ey + 52 - ?ex)"
    have kk: "(2::real) powi (?ey + 52 - ?ex) = real_of_int (2 ^ ?k)"
      using lt by (simp add: power_int_nonneg_exp)
    have "x < 2 powi (?ex + 53)" by (rule double_exponent_upper [OF assms(1)])
    also have "\<dots> \<le> ?B" using lt by (intro power_int_increasing) simp_all
    finally have "x \<le> ?B" by simp
    then have "x / 2 powi ?ex \<le> ?B / 2 powi ?ex" by (simp add: divide_right_mono)
    moreover have "?B / 2 powi ?ex = real_of_int (2 ^ ?k)"
    proof -
      have "?B / 2 powi ?ex = 2 powi (?ey + 52 - ?ex)" by (simp add: power_int_diff)
      then show ?thesis by (simp only: kk)
    qed
    ultimately have "x / 2 powi ?ex \<le> real_of_int (2 ^ ?k)" by simp
    then have "py_round (x / 2 powi ?ex) \<le> py_round (real_of_int (2 ^ ?k))"
      by (rule py_round_mono)
    then have "py_round (x / 2 powi ?ex) \<le> 2 ^ ?k" by (simp only: py_round_of_int)
    then have "real_of_int (py_round (x / 2 powi ?ex)) \<le> real_of_int (2 ^ ?k)"
      by (rule of_int_le_iff [THEN iffD2])
    then have t: "real_of_int (py_round (x / 2 powi ?ex)) * 2 powi ?ex
                 \<le> real_of_int (2 ^ ?k) * 2 powi ?ex"
      by (intro mult_right_mono) simp_all
    have "real_of_int (2 ^ ?k) * 2 powi ?ex = ?B"
    proof -
      have "2 powi (?ey + 52 - ?ex) * 2 powi ?ex = ?B"
        by (simp add: power_int_add [symmetric])
      then show ?thesis by (simp only: kk)
    qed
    with t have "real_of_int (py_round (x / 2 powi ?ex)) * 2 powi ?ex \<le> ?B"
      by (simp only:)
    then have "double_round x \<le> ?B" by (simp only: double_round_def Let_def)
    with lower show ?thesis by linarith
  qed
qed

lemma double_round_mono:
  assumes "0 \<le> x" and "x \<le> y"
  shows "double_round x \<le> double_round y"
proof (cases "x = 0")
  case True
  then show ?thesis using assms double_round_nonneg [of y] by (simp add: double_round_0)
next
  case False
  then show ?thesis using assms by (intro double_round_mono_pos) simp_all
qed

text \<open>Evaluation of the float operations on numerals.\<close>

lemmas float_eval =
  float_add_def float_sub_def float_mul_def float_of_int_def double_round_def
  double_exponent_def py_round_def py_int_def compute_bitlen Let_def

lemma double_round_small_int: "double_round 1 = 1" "double_round 2 = 2"
  by (simp_all add: float_eval)

text \<open>
  The literal \<open>0.05\<close> denotes the double \<open>3602879701896397 / 2^56\<close>, a little above one
  twentieth. There the rounded products are exactly 19 and 38, and the bounds of the draw
  are 29 and 58, where exact arithmetic would truncate to 28 and 57.
\<close>

lemma double_0_05_nearest: "double_round (5 / 100) = double_0_05"
  by (simp add: float_eval double_0_05_def)

lemma bases_at_double_0_05:
  "float_mul (float_sub 1 double_0_05) 20 = 19"
  "float_mul (float_sub 1 double_0_05) 40 = 38"
  "py_int ((1 - double_0_05) * 20) = 18"
  by (simp_all add: float_eval double_0_05_def)

section \<open>Scheduling\<close>

lemma max2_py_int: "max 2 (py_int x) = max 2 \<lfloor>x\<rfloor>"
proof (cases "0 \<le> x")
  case True
  then show ?thesis by (simp add: py_int_def)
next
  case False
  then have "\<lceil>x\<rceil> \<le> 0" by (simp add: ceiling_le_iff)
  moreover have "\<lfloor>x\<rfloor> \<le> \<lceil>x\<rceil>" by (rule floor_le_ceiling)
  ultimately show ?thesis using False by (simp add: py_int_def)
qed

lemma randint_range:
  assumes "a \<le> b"
  shows "a \<le> a + int k mod (b - a + 1) \<and> a + int k mod (b - a + 1) \<le> b"
proof -
  have p: "0 < b - a + 1" using assms by simp
  show ?thesis
    using pos_mod_bound [OF p, of "int k"] pos_mod_sign [OF p, of "int k"] by linarith
qed

lemma rng_randint_range:
  assumes "rng_randint g a b = Inr (r, g')"
  shows "a \<le> r \<and> r \<le> b \<and> g' = rng_tail g"
proof -
  have ab: "a \<le> b" using assms by (auto simp: rng_randint_def split: if_splits)
  then have "r = a + int (g 0) mod (b - a + 1)" "g' = rng_tail g"
    using assms by (auto simp: rng_randint_def)
  then show ?thesis using randint_range [OF ab, of "g 0"] by simp
qed

lemma schedule_next_eq: "schedule_next self = schedule_next_truncated self"
  by (simp add: schedule_next_def schedule_next_truncated_def min_base_def max_base_def
        Let_def max2_py_int split: sum.splits)

text \<open>
  Claim C6, as amended. The scheduling rule is the one described with both bounds truncated
  toward zero instead of rounded: \<open>min_base = 10 + int((1 - disaster_intensity) * 20)\<close>,
  \<open>max_base = 20 + int((1 - disaster_intensity) * 40)\<close>, the generator's uniform draw of
  an integer base in \<open>[min_base, max_base]\<close>, the product with
  \<open>weather_factor = 1 + moisture * 0.5\<close> floored and clamped to at least 2, added to
  \<open>turn_counter\<close>.
\<close>

theorem schedule_next_rule:
  "schedule_next self = schedule_next_truncated self \<and>
   (\<forall>base g'.
      rng_randint (rng self) (min_base (es_settings self)) (max_base (es_settings self))
        = Inr (base, g') \<longrightarrow>
      min_base (es_settings self) \<le> base \<and> base \<le> max_base (es_settings self) \<and>
      schedule_next self
        = Inr (turn_counter self
                 + max 2 \<lfloor>float_mul (float_of_int base) (weather_factor (es_settings self))\<rfloor>,
               self\<lparr>rng := g'\<rparr>))"
proof (intro conjI allI impI)
  show "schedule_next self = schedule_next_truncated self" by (rule schedule_next_eq)
next
  fix base g'
  assume r: "rng_randint (rng self) (min_base (es_settings self)) (max_base (es_settings self))
               = Inr (base, g')"
  show "min_base (es_settings self) \<le> base" using rng_randint_range [OF r] by simp
  show "base \<le> max_base (es_settings self)" using rng_randint_range [OF r] by simp
  show "schedule_next self
        = Inr (turn_counter self
                 + max 2 \<lfloor>float_mul (float_of_int base) (weather_factor (es_settings self))\<rfloor>,
               self\<lparr>rng := g'\<rparr>)"
    using r by (simp add: schedule_next_def Let_def max2_py_int)
qed

lemma example_bases:
  "min_base (example_settings 0) = 30" "max_base (example_settings 0) = 60"
  "weather_factor (example_settings 0) = 5 / 4"
  by (simp_all add: min_base_def max_base_def weather_factor_def example_settings_fields
        float_eval)

lemma example_schedule:
  "schedule_next (example_system (example_settings 0) [])
     = Inr (37, (example_system (example_settings 0) [])\<lparr>rng := rng_tail (\<lambda>i. 0)\<rparr>)"
  by (simp add: schedule_next_def rng_randint_def example_bases example_system_fields)
     (simp add: float_eval)

theorem schedule_next_rule_witness:
  "rng_randint (rng (example_system (example_settings 0) [])) 30 60
     = Inr (30, rng_tail (\<lambda>i. 0)) \<and>
   scheduled_turn (schedule_next (example_system (example_settings 0) [])) = Inr 37"
proof -
  have r: "rng_randint (rng (example_system (example_settings 0) []))
             (min_base (es_settings (example_system (example_settings 0) [])))
             (max_base (es_settings (example_system (example_settings 0) [])))
           = Inr (30, rng_tail (\<lambda>i. 0))"
    by (simp add: rng_randint_def example_bases example_system_fields)
  from schedule_next_rule [of "example_system (example_settings 0) []"] r
  have "schedule_next (example_system (example_settings 0) [])
          = Inr (turn_counter (example_system (example_settings 0) [])
                   + max 2 \<lfloor>float_mul (float_of_int 30)
                              (weather_factor (es_settings (example_system (example_settings 0) [])))\<rfloor>,
                 (example_system (example_settings 0) [])\<lparr>rng := rng_tail (\<lambda>i. 0)\<rparr>)"
    by blast
  then have "scheduled_turn (schedule_next (example_system (example_settings 0) [])) = Inr 37"
    by (simp add: scheduled_turn_def example_bases example_system_fields) (simp add: float_eval)
  with r show ?thesis by (simp add: example_bases example_system_fields)
qed

lemma sixteenth_products:
  "float_mul (float_sub 1 (1 / 16)) 20 = 75 / 4"
  "float_mul (float_sub 1 (1 / 16)) 40 = 75 / 2"
  by (simp_all add: float_eval)

lemma sixteenth_bases:
  "min_base (example_settings (1 / 16)) = 28" "max_base (example_settings (1 / 16)) = 57"
  "weather_factor (example_settings (1 / 16)) = 5 / 4"
  by (simp_all add: min_base_def max_base_def weather_factor_def example_settings_fields
        sixteenth_products)
     (simp_all add: float_eval)

lemma sixteenth_delays:
  "float_mul (float_of_int 28) (5 / 4) = 35" "float_mul (float_of_int 29) (5 / 4) = 145 / 4"
  by (simp_all add: float_eval)

text \<open>
  The claim as stated fails: at disaster intensity \<open>1/16\<close>, where every float operation of
  the rule is exact, the bounds are \<open>10 + int(18.75) = 28\<close> and \<open>20 + int(37.5) = 57\<close>, so
  a generator drawing the lower bound schedules turn \<open>int(28 * 1.25) = 35\<close>, where the
  rounded bounds give 36.
\<close>

theorem schedule_next_rounded_counterexample:
  "min_base (example_settings (1 / 16)) = 28 \<and>
   10 + py_round (float_mul (float_sub 1 (disaster_intensity (example_settings (1 / 16)))) 20)
     = 29 \<and>
   scheduled_turn (schedule_next (example_system (example_settings (1 / 16)) [])) = Inr 35 \<and>
   scheduled_turn (schedule_next_rounded (example_system (example_settings (1 / 16)) []))
     = Inr 36"
proof -
  have r: "10 + py_round (float_mul (float_sub 1 (disaster_intensity (example_settings (1 / 16)))) 20)
             = 29"
    "20 + py_round (float_mul (float_sub 1 (disaster_intensity (example_settings (1 / 16)))) 40)
             = 58"
    by (simp_all add: example_settings_fields sixteenth_products py_round_def Let_def)
  have a: "scheduled_turn (schedule_next (example_system (example_settings (1 / 16)) []))
             = Inr 35"
    by (simp add: scheduled_turn_def schedule_next_def rng_randint_def sixteenth_bases
          example_system_fields sixteenth_delays py_int_def)
  have b: "scheduled_turn (schedule_next_rounded (example_system (example_settings (1 / 16)) []))
             = Inr 36"
    by (simp add: scheduled_turn_def schedule_next_rounded_def rng_randint_def r sixteenth_bases
          example_system_fields sixteenth_delays Let_def)
  show ?thesis using r(1) a b by (simp add: sixteenth_bases)
qed

lemma bases_ordered:
  assumes "0 \<le> disaster_intensity s" "disaster_intensity s \<le> 1"
  shows "10 \<le> min_base s \<and> min_base s \<le> max_base s"
proof -
  let ?u = "float_sub 1 (disaster_intensity s)"
  have u: "0 \<le> ?u" using assms by (simp add: float_sub_def double_round_nonneg)
  have a: "0 \<le> float_mul ?u 20" using u by (simp add: float_mul_def double_round_nonneg)
  have "float_mul ?u 20 \<le> float_mul ?u 40"
    unfolding float_mul_def using u by (intro double_round_mono) simp_all
  then have "\<lfloor>float_mul ?u 20\<rfloor> \<le> \<lfloor>float_mul ?u 40\<rfloor>" by (rule floor_mono)
  moreover have "0 \<le> \<lfloor>float_mul ?u 20\<rfloor>" using a by simp
  moreover have "0 \<le> float_mul ?u 40" using u by (simp add: float_mul_def double_round_nonneg)
  ultimately show ?thesis using a by (simp add: min_base_def max_base_def py_int_def)
qed

lemma weather_factor_ge_1:
  assumes "0 \<le> moisture s"
  shows "1 \<le> weather_factor s"
proof -
  have "0 \<le> float_mul (moisture s) (1 / 2)"
    using assms by (simp add: float_mul_def double_round_nonneg)
  then have "double_round 1 \<le> double_round (1 + float_mul (moisture s) (1 / 2))"
    by (intro double_round_mono) simp_all
  then show ?thesis by (simp add: weather_factor_def float_add_def double_round_small_int)
qed

lemma float_of_int_mono:
  assumes "0 \<le> m" and "m \<le> n"
  shows "float_of_int m \<le> float_of_int n"
  unfolding float_of_int_def using assms by (intro double_round_mono) simp_all

lemma float_of_int_ge_2:
  assumes "2 \<le> n"
  shows "2 \<le> float_of_int n"
proof -
  have "double_round 2 \<le> double_round (real_of_int n)"
    using assms by (intro double_round_mono) simp_all
  then show ?thesis by (simp add: float_of_int_def double_round_small_int)
qed

lemma schedule_next_gap:
  assumes "0 \<le> disaster_intensity (es_settings self)"
    and "disaster_intensity (es_settings self) \<le> 1"
    and "0 \<le> moisture (es_settings self)"
  shows "\<exists>t. schedule_next self = Inr (t, self\<lparr>rng := rng_tail (rng self)\<rparr>) \<and>
           gap_in_bounds (es_settings self) (t - turn_counter self)"
proof -
  let ?s = "es_settings self"
  let ?lo = "min_base ?s" and ?hi = "max_base ?s"
  let ?base = "?lo + int (rng self 0) mod (?hi - ?lo + 1)"
  let ?wf = "weather_factor ?s"
  have ord: "10 \<le> ?lo" "?lo \<le> ?hi" using bases_ordered [OF assms(1,2)] by simp_all
  have rg: "?lo \<le> ?base" "?base \<le> ?hi" using randint_range [OF ord(2)] by simp_all
  have wf: "1 \<le> ?wf" by (rule weather_factor_ge_1 [OF assms(3)])
  have b0: "0 \<le> ?base" using ord(1) rg(1) by linarith
  have fb: "0 \<le> float_of_int ?base" "float_of_int ?base \<le> float_of_int ?hi"
  proof -
    show "0 \<le> float_of_int ?base"
      unfolding float_of_int_def using b0 by (intro double_round_nonneg) simp
    show "float_of_int ?base \<le> float_of_int ?hi"
      using b0 rg(2) by (rule float_of_int_mono)
  qed
  have fh: "2 \<le> float_of_int ?hi" using ord by (intro float_of_int_ge_2) simp
  let ?p = "float_mul (float_of_int ?base) ?wf" and ?q = "float_mul (float_of_int ?hi) ?wf"
  have p0: "0 \<le> float_of_int ?base * ?wf" using fb(1) wf by simp
  have "float_of_int ?base * ?wf \<le> float_of_int ?hi * ?wf"
    using fb(2) wf by (intro mult_right_mono) simp_all
  then have pq: "?p \<le> ?q" unfolding float_mul_def using p0 by (intro double_round_mono)
  have "2 * 1 \<le> float_of_int ?hi * ?wf" using fh wf by (intro mult_mono) simp_all
  then have "double_round 2 \<le> ?q" unfolding float_mul_def by (intro double_round_mono) simp_all
  then have q2: "2 \<le> ?q" by (simp add: double_round_small_int)
  have "\<lfloor>?p\<rfloor> \<le> \<lfloor>?q\<rfloor>" using pq by (rule floor_mono)
  also have "\<dots> \<le> \<lceil>?q\<rceil>" by (rule floor_le_ceiling)
  finally have up: "\<lfloor>?p\<rfloor> \<le> \<lceil>?q\<rceil>" .
  have c2: "2 \<le> \<lceil>?q\<rceil>" using q2 by (simp add: le_ceiling_iff)
  have eq: "schedule_next self
      = Inr (turn_counter self + max 2 \<lfloor>?p\<rfloor>, self\<lparr>rng := rng_tail (rng self)\<rparr>)"
    using ord(2) by (simp add: schedule_next_def rng_randint_def Let_def max2_py_int)
  show ?thesis using eq up c2 by (simp add: gap_in_bounds_def)
qed

lemma choose_event_result:
  assumes "choose_event self = Inr (ev, self')"
  shows "es_settings self' = es_settings self \<and> turn_counter self' = turn_counter self"
  using assms by (auto simp: choose_event_def split: sum.splits)

lemma EventSystem_init_gap:
  assumes "0 \<le> disaster_intensity s" "disaster_intensity s \<le> 1" "0 \<le> moisture s"
  shows "\<exists>sys. EventSystem_init entropy s rng_arg weights_arg = Inr sys \<and>
           es_settings sys = s \<and>
           gap_in_bounds s (next_event_turn sys - turn_counter sys)"
proof -
  define self0 where "self0 =
     \<lparr>es_settings = s,
      rng = (case rng_arg of Some g \<Rightarrow> g | None \<Rightarrow> entropy),
      event_weights = (case weights_arg of
                         None \<Rightarrow> default_event_weights
                       | Some [] \<Rightarrow> default_event_weights
                       | Some ws \<Rightarrow> ws),
      turn_counter = 0,
      next_event_turn = 0\<rparr>"
  have s0: "es_settings self0 = s" "turn_counter self0 = 0" by (simp_all add: self0_def)
  obtain t where r: "schedule_next self0 = Inr (t, self0\<lparr>rng := rng_tail (rng self0)\<rparr>)"
    and g: "gap_in_bounds s (t - 0)"
    using schedule_next_gap [of self0] assms s0 by auto
  have "EventSystem_init entropy s rng_arg weights_arg
          = Inr (self0\<lparr>rng := rng_tail (rng self0), next_event_turn := t\<rparr>)"
    using r by (simp add: EventSystem_init_def self0_def [symmetric] Let_def)
  then show ?thesis using g s0 by simp
qed

lemma advance_turn_gap:
  assumes "0 \<le> disaster_intensity (es_settings self)"
    and "disaster_intensity (es_settings self) \<le> 1"
    and "0 \<le> moisture (es_settings self)"
    and "advance_turn mk self st w = Inr (Some ev, self', st', w')"
  shows "gap_in_bounds (es_settings self) (next_event_turn self' - turn_counter self')"
proof -
  let ?self1 = "self\<lparr>turn_counter := turn_counter self + 1\<rparr>"
  from assms(4) obtain self2 st2 w2 t self3 where
    c: "choose_event ?self1 = Inr (ev, self2)"
    and n: "schedule_next self2 = Inr (t, self3)"
    and e: "self' = self3\<lparr>next_event_turn := t\<rparr>"
    by (auto simp: advance_turn_def Let_def split: if_splits sum.splits)
  have s2: "es_settings self2 = es_settings self" "turn_counter self2 = turn_counter self + 1"
    using choose_event_result [OF c] by simp_all
  obtain t' where r: "schedule_next self2 = Inr (t', self2\<lparr>rng := rng_tail (rng self2)\<rparr>)"
    and g: "gap_in_bounds (es_settings self2) (t' - turn_counter self2)"
    using schedule_next_gap [of self2] assms(1-3) s2 by auto
  from r n have "t' = t" "self3 = self2\<lparr>rng := rng_tail (rng self2)\<rparr>" by simp_all
  then show ?thesis using g e s2 by simp
qed

text \<open>
  Claim C7. For settings with \<open>0 \<le> disaster_intensity \<le> 1\<close> and \<open>moisture \<ge> 0\<close>,
  whenever the scheduling rule runs it returns, and the gap between the turn it schedules and
  the turn counter lies in \<open>[2, ceil(max_base * (1 + moisture * 0.5))]\<close>: for the rule
  itself, for the system the constructor returns, and for the system left by an
  \<open>advance_turn\<close> that fired an event.
\<close>

theorem schedule_gap_bounds:
  assumes "0 \<le> disaster_intensity s" "disaster_intensity s \<le> 1" "0 \<le> moisture s"
  shows "(es_settings self = s \<longrightarrow>
            (\<exists>t. schedule_next self = Inr (t, self\<lparr>rng := rng_tail (rng self)\<rparr>) \<and>
                 gap_in_bounds s (t - turn_counter self))) \<and>
         (\<exists>sys. EventSystem_init entropy s rng_arg weights_arg = Inr sys \<and>
                 gap_in_bounds s (next_event_turn sys - turn_counter sys)) \<and>
         (es_settings self = s \<longrightarrow>
            advance_turn mk self st w = Inr (Some ev, self', st', w') \<longrightarrow>
            gap_in_bounds s (next_event_turn self' - turn_counter self'))"
proof (intro conjI impI)
  assume "es_settings self = s"
  then show "\<exists>t. schedule_next self = Inr (t, self\<lparr>rng := rng_tail (rng self)\<rparr>) \<and>
                 gap_in_bounds s (t - turn_counter self)"
    using schedule_next_gap [of self] assms by simp
next
  show "\<exists>sys. EventSystem_init entropy s rng_arg weights_arg = Inr sys \<and>
                 gap_in_bounds s (next_event_turn sys - turn_counter sys)"
    using EventSystem_init_gap [OF assms] by blast
next
  assume "es_settings self = s"
    and "advance_turn mk self st w = Inr (Some ev, self', st', w')"
  then show "gap_in_bounds s (next_event_turn self' - turn_counter self')"
    using advance_turn_gap [of self mk st w ev self' st' w'] assms by simp
qed

theorem schedule_gap_bounds_witness:
  "0 \<le> disaster_intensity (example_settings 0) \<and>
   disaster_intensity (example_settings 0) \<le> 1 \<and>
   0 \<le> moisture (example_settings 0) \<and>
   max_base (example_settings 0) = 60 \<and>
   scheduled_turn (schedule_next (example_system (example_settings 0) [])) = Inr 37 \<and>
   gap_in_bounds (example_settings 0) (37 - 0) \<and>
   (\<exists>sys. EventSystem_init (\<lambda>i. 0) (example_settings 0) None None = Inr sys \<and>
          gap_in_bounds (example_settings 0) (next_event_turn sys - turn_counter sys))"
proof -
  have a: "0 \<le> disaster_intensity (example_settings 0)"
    "disaster_intensity (example_settings 0) \<le> 1" "0 \<le> moisture (example_settings 0)"
    by (simp_all add: example_settings_fields)
  have m: "max_base (example_settings 0) = 60" by (rule example_bases)
  have t: "scheduled_turn (schedule_next (example_system (example_settings 0) [])) = Inr 37"
    by (simp add: scheduled_turn_def example_schedule)
  note w = schedule_gap_bounds [OF a, where self = "example_system (example_settings 0) []"
             and entropy = "\<lambda>i. 0" and rng_arg = None and weights_arg = None and mk = mk0
             and st = "example_state 0" and w = "example_world 0 0 Map.empty" and ev = Flood
             and self' = "example_system (example_settings 0) []" and st' = "example_state 0"
             and w' = "example_world 0 0 Map.empty"]
  from w obtain u self' where
    u: "schedule_next (example_system (example_settings 0) []) = Inr (u, self')"
      "gap_in_bounds (example_settings 0) (u - 0)"
    by (auto simp: example_system_fields)
  from u(1) have "u = 37" by (simp add: example_schedule)
  with u(2) have g: "gap_in_bounds (example_settings 0) (37 - 0)" by simp
  show ?thesis using a m t g w by blast
qed

text \<open>
  At the double \<open>0.05\<close> and moisture zero the upper bound of the draw is 58, and a gap of 58
  is inside the interval.
\<close>

lemma gap_at_double_0_05:
  "max_base ((example_settings double_0_05)\<lparr>moisture := 0\<rparr>) = 58"
  "min_base ((example_settings double_0_05)\<lparr>moisture := 0\<rparr>) = 29"
  "gap_in_bounds ((example_settings double_0_05)\<lparr>moisture := 0\<rparr>) 58"
proof -
  show m: "max_base ((example_settings double_0_05)\<lparr>moisture := 0\<rparr>) = 58"
    by (simp add: max_base_def example_settings_fields bases_at_double_0_05 py_int_def)
  show "min_base ((example_settings double_0_05)\<lparr>moisture := 0\<rparr>) = 29"
    by (simp add: min_base_def example_settings_fields bases_at_double_0_05 py_int_def)
  have "float_mul (float_of_int 58) (float_add 1 (float_mul 0 (1 / 2))) = 58"
    by (simp add: float_eval)
  then show "gap_in_bounds ((example_settings double_0_05)\<lparr>moisture := 0\<rparr>) 58"
    by (simp add: gap_in_bounds_def m weather_factor_def)
qed

lemma bases_at_2:
  "float_mul (float_sub 1 2) 20 = - 20" "float_mul (float_sub 1 2) 40 = - 40"
  by (simp_all add: float_eval)

text \<open>
  Claim C10. At the non-negative disaster intensity 2 the lower bound of the draw exceeds
  the upper bound, so the scheduling rule, and with it the construction of the event system,
  raises instead of returning a turn; the rule returns exactly when
  \<open>min_base \<le> max_base\<close>.
\<close>

theorem schedule_next_partial:
  "(disaster_intensity (es_settings self) = 2 \<longrightarrow>
      max_base (es_settings self) < min_base (es_settings self) \<and>
      schedule_next self = Inl ValueError) \<and>
   ((\<exists>t self'. schedule_next self = Inr (t, self'))
      \<longleftrightarrow> min_base (es_settings self) \<le> max_base (es_settings self)) \<and>
   (disaster_intensity s = 2 \<longrightarrow> EventSystem_init entropy s rng_arg weights_arg = Inl ValueError)"
proof (intro conjI impI)
  assume d: "disaster_intensity (es_settings self) = 2"
  then show "max_base (es_settings self) < min_base (es_settings self)"
    by (simp add: min_base_def max_base_def bases_at_2 py_int_def)
  then show "schedule_next self = Inl ValueError"
    by (simp add: schedule_next_def rng_randint_def)
next
  show "(\<exists>t self'. schedule_next self = Inr (t, self'))
      \<longleftrightarrow> min_base (es_settings self) \<le> max_base (es_settings self)"
    by (auto simp: schedule_next_def rng_randint_def Let_def)
next
  assume d: "disaster_intensity s = 2"
  then have "max_base s < min_base s"
    by (simp add: min_base_def max_base_def bases_at_2 py_int_def)
  then show "EventSystem_init entropy s rng_arg weights_arg = Inl ValueError"
    by (simp add: EventSystem_init_def schedule_next_def rng_randint_def Let_def)
qed

theorem schedule_next_partial_witness:
  "0 \<le> disaster_intensity (example_settings 2) \<and>
   min_base (example_settings 2) = - 10 \<and> max_base (example_settings 2) = - 20 \<and>
   schedule_next (example_system (example_settings 2) []) = Inl ValueError \<and>
   EventSystem_init (\<lambda>i. 0) (example_settings 2) (Some (\<lambda>i. 0)) None = Inl ValueError"
  using schedule_next_partial [of "example_system (example_settings 2) []" "example_settings 2"
     "\<lambda>i. 0" "Some (\<lambda>i. 0)" None]
  by (simp add: example_system_fields example_settings_fields min_base_def max_base_def
        bases_at_2 py_int_def)

section \<open>Rivers and terrain\<close>

lemma Flood_apply_consistent:
  assumes "tile_after (Flood_apply mk st w) c = Some h'"
    and "case tiles w c of None \<Rightarrow> True | Some h \<Rightarrow> tile_consistent h"
  shows "tile_consistent h'"
  using assms
  by (auto simp: Flood_apply_def tile_after_def rng_randint_def Let_def put_tile_def
        sever_river_def world_get_def tile_consistent_def water_compatible_def
      split: option.splits if_splits)

lemma Hurricane_apply_consistent:
  assumes "tile_after (Hurricane_apply mk st w) c = Some h'"
    and "case tiles w c of None \<Rightarrow> True | Some h \<Rightarrow> tile_consistent h"
  shows "tile_consistent h'"
  using assms
  by (auto simp: Hurricane_apply_def tile_after_def Let_def put_tile_def
        sever_river_def world_get_def tile_consistent_def water_compatible_def
      split: option.splits if_splits)

lemma Drought_apply_consistent:
  assumes "tile_after (Drought_apply mk st w) c = Some h'"
    and "case tiles w c of None \<Rightarrow> True | Some h \<Rightarrow> tile_consistent h"
    and "severity mk st w \<le> 13 / 10 \<or> \<not> settlement_on_river st w"
  shows "tile_consistent h'"
  using assms
  by (auto simp: Drought_apply_def tile_after_def Let_def put_tile_def settlement_on_river_def
        world_get_def tile_consistent_def water_compatible_def
      split: option.splits if_splits)

lemma Raid_apply_consistent:
  assumes "tile_after (Raid_apply mk st w) c = Some h'"
    and "case tiles w c of None \<Rightarrow> True | Some h \<Rightarrow> tile_consistent h"
    and "severity mk st w \<le> 13 / 10 \<or> \<not> settlement_on_river st w"
  shows "tile_consistent h'"
  using assms
  by (auto simp: Raid_apply_def tile_after_def Let_def put_tile_def settlement_on_river_def
        world_get_def tile_consistent_def water_compatible_def
      split: option.splits if_splits)

lemma Earthquake_apply_consistent:
  assumes "tile_after (Earthquake_apply mk st w) c = Some h'"
    and "case tiles w c of None \<Rightarrow> True | Some h \<Rightarrow> tile_consistent h"
    and "severity mk st w \<le> 13 / 10 \<or> \<not> settlement_on_river st w"
  shows "tile_consistent h'"
  using assms
  by (auto simp: Earthquake_apply_def tile_after_def Let_def put_tile_def settlement_on_river_def
        world_get_def tile_consistent_def water_compatible_def
      split: option.splits if_splits)

text \<open>
  Claim C2, as amended. An \<open>apply\<close> of Flood or of Hurricane, or of any variant at a
  severity of at most 1.3, or of any variant when the settlement's tile carries no river,
  leaves every tile that was consistent (river flag true only on a terrain other than desert
  and mountains) consistent. Drought, Raid and Earthquake above that severity change the
  terrain of the settlement's tile without reading its river flag.
\<close>

theorem apply_event_tile_consistent:
  assumes "tile_after (apply_event mk ev st w) c = Some h'"
    and "case tiles w c of None \<Rightarrow> True | Some h \<Rightarrow> tile_consistent h"
    and "ev = Flood \<or> ev = Hurricane \<or> severity mk st w \<le> 13 / 10
           \<or> \<not> settlement_on_river st w"
  shows "tile_consistent h'"
proof (cases ev)
  case Flood
  then show ?thesis using assms(1,2) Flood_apply_consistent by simp
next
  case Hurricane
  then show ?thesis using assms(1,2) Hurricane_apply_consistent by simp
next
  case Drought
  then show ?thesis using assms Drought_apply_consistent [of mk st w c h'] by simp
next
  case Raid
  then show ?thesis using assms Raid_apply_consistent [of mk st w c h'] by simp
next
  case Earthquake
  then show ?thesis using assms Earthquake_apply_consistent [of mk st w c h'] by simp
qed

theorem apply_event_tile_consistent_witness:
  "tile_after (apply_event mk0 Flood (example_state 0)
                 (example_world (1 / 2) 0 [(0, 0) \<mapsto> river_tile])) (0, 0)
     = Some flooded_river_tile \<and>
   tile_consistent river_tile \<and> tile_consistent flooded_river_tile"
proof -
  have t: "tile_after (apply_event mk0 Flood (example_state 0)
                 (example_world (1 / 2) 0 [(0, 0) \<mapsto> river_tile])) (0, 0)
     = Some flooded_river_tile"
    by (simp add: severity_example Flood_apply_def tile_after_def rng_randint_def
        world_get_def put_tile_def sever_river_def Let_def example_state_fields
        example_world_fields example_settings_fields river_tile_def flooded_river_tile_def)
  have b: "case tiles (example_world (1 / 2) 0 [(0, 0) \<mapsto> river_tile]) (0, 0) of
             None \<Rightarrow> True | Some h \<Rightarrow> tile_consistent h"
    by (simp add: example_world_fields tile_consistent_def water_compatible_def river_tile_def)
  have "tile_consistent flooded_river_tile"
    using apply_event_tile_consistent [OF t b] by simp
  moreover have "tile_consistent river_tile"
    by (simp add: tile_consistent_def water_compatible_def river_tile_def)
  ultimately show ?thesis using t by simp
qed

text \<open>
  The claim as stated fails: on a plains tile with a river, at severity 1.62, Drought leaves
  the river flag set on desert and Earthquake leaves it set on mountains.
\<close>

theorem drought_river_counterexample:
  "tile_consistent river_tile \<and>
   map_option river
     (tile_after (apply_event mk0 Drought (example_state 0)
                    (example_world (1 / 2) 0 [(0, 0) \<mapsto> river_tile])) (0, 0)) = Some True \<and>
   map_option terrain
     (tile_after (apply_event mk0 Drought (example_state 0)
                    (example_world (1 / 2) 0 [(0, 0) \<mapsto> river_tile])) (0, 0)) = Some ''desert'' \<and>
   map_option terrain
     (tile_after (apply_event mk0 Earthquake (example_state 0)
                    (example_world (1 / 2) 0 [(0, 0) \<mapsto> river_tile])) (0, 0)) = Some ''mountains'' \<and>
   map_option river
     (tile_after (apply_event mk0 Earthquake (example_state 0)
                    (example_world (1 / 2) 0 [(0, 0) \<mapsto> river_tile])) (0, 0)) = Some True"
  by (simp add: severity_example Drought_apply_def Earthquake_apply_def tile_after_def
        world_get_def put_tile_def Let_def example_state_fields example_world_fields
        example_settings_fields tile_consistent_def water_compatible_def river_tile_def)

section \<open>Weighted selection\<close>

lemma length_accumulate_from: "length (accumulate_from acc ws) = length ws"
  by (induction ws arbitrary: acc) simp_all

lemma last_accumulate_from:
  "ws \<noteq> [] \<Longrightarrow> last (accumulate_from acc ws) = acc + sum_list ws"
proof (induction ws arbitrary: acc)
  case Nil
  then show ?case by simp
next
  case (Cons w ws)
  show ?case
  proof (cases "ws = []")
    case True
    then show ?thesis by simp
  next
    case False
    then have "accumulate_from (acc + w) ws \<noteq> []"
      by (cases ws) simp_all
    then have "last (accumulate_from acc (w # ws)) = last (accumulate_from (acc + w) ws)"
      by simp
    also have "\<dots> = acc + w + sum_list ws" using Cons.IH [OF False] .
    finally show ?thesis by simp
  qed
qed

lemma length_ALL_EVENTS: "length ALL_EVENTS = 5"
  by (simp add: ALL_EVENTS_def)

lemma event_weight_list_length: "length (event_weight_list self) = 5"
  by (simp add: event_weight_list_def Let_def)

lemma rng_choices_events:
  "rng_choices g ALL_EVENTS (event_weight_list self) =
     (if sum_list (event_weight_list self) \<le> 0 then Inl ValueError
      else Inr (ALL_EVENTS ! bisect_right (accumulate (event_weight_list self))
                   (fst (rng_random g) * sum_list (event_weight_list self)) 0 (length ALL_EVENTS - 1),
                rng_tail g))"
proof -
  have ne: "event_weight_list self \<noteq> []" using event_weight_list_length [of self] by auto
  have l: "length (accumulate (event_weight_list self)) = 5"
    by (simp add: accumulate_def length_accumulate_from event_weight_list_length)
  then have ne': "accumulate (event_weight_list self) \<noteq> []" by auto
  have t: "last (accumulate (event_weight_list self)) = sum_list (event_weight_list self)"
    using ne by (simp add: accumulate_def last_accumulate_from)
  show ?thesis
    using l ne' t
    by (simp add: rng_choices_def Let_def length_ALL_EVENTS rng_random_def split_def)
qed

text \<open>
  Claim C3, as amended. Choosing an event succeeds exactly when the total of the five
  computed weights is positive, and raises \<open>ValueError\<close> when the total is zero or
  negative, so with all five weights zero it raises. A \<open>weather_patterns\<close> mapping without
  the key rain or dry raises nothing: the missing key contributes the weight 0.1.
\<close>

theorem choose_event_succeeds_iff:
  "((\<exists>event self'. choose_event self = Inr (event, self'))
      \<longleftrightarrow> 0 < sum_list (event_weight_list self)) \<and>
   (choose_event self = Inl ValueError \<longleftrightarrow> sum_list (event_weight_list self) \<le> 0) \<and>
   (map_of (weather_patterns (es_settings self)) ''rain'' = None \<longrightarrow>
      event_weight_list self ! 0
        = dict_get (event_weights self) ''flood'' 1 * (1 / 10) * moisture (es_settings self) \<and>
      event_weight_list self ! 4
        = dict_get (event_weights self) ''hurricane'' 1 * (1 / 10) * moisture (es_settings self)) \<and>
   (map_of (weather_patterns (es_settings self)) ''dry'' = None \<longrightarrow>
      event_weight_list self ! 1
        = dict_get (event_weights self) ''drought'' 1 * (1 / 10)
          * (1 - moisture (es_settings self)))"
proof (intro conjI impI)
  show "(\<exists>event self'. choose_event self = Inr (event, self'))
      \<longleftrightarrow> 0 < sum_list (event_weight_list self)"
    by (auto simp: choose_event_def rng_choices_events)
  show "choose_event self = Inl ValueError \<longleftrightarrow> sum_list (event_weight_list self) \<le> 0"
    by (auto simp: choose_event_def rng_choices_events)
next
  assume "map_of (weather_patterns (es_settings self)) ''rain'' = None"
  then show "event_weight_list self ! 0
        = dict_get (event_weights self) ''flood'' 1 * (1 / 10) * moisture (es_settings self)"
    and "event_weight_list self ! 4
        = dict_get (event_weights self) ''hurricane'' 1 * (1 / 10) * moisture (es_settings self)"
    by (simp_all add: event_weight_list_def Let_def dict_get_def)
next
  assume "map_of (weather_patterns (es_settings self)) ''dry'' = None"
  then show "event_weight_list self ! 1
        = dict_get (event_weights self) ''drought'' 1 * (1 / 10)
          * (1 - moisture (es_settings self))"
    by (simp add: event_weight_list_def Let_def dict_get_def)
qed

theorem choose_event_succeeds_iff_witness:
  "map_of (weather_patterns (es_settings (example_system keyless_settings []))) ''rain'' = None \<and>
   map_of (weather_patterns (es_settings (example_system keyless_settings []))) ''dry'' = None \<and>
   event_weight_list (example_system keyless_settings []) = [1 / 20, 1 / 20, 1, 1 / 2, 1 / 20] \<and>
   (\<exists>event self'. choose_event (example_system keyless_settings []) = Inr (event, self'))"
  using choose_event_succeeds_iff [of "example_system keyless_settings []"]
  by (simp add: event_weight_list_def Let_def dict_get_def
       keyless_settings_def example_system_def example_settings_def)

text \<open>
  The claim as stated fails: with moisture 0, plate activity 0 and raid weight 0 all five
  weights are zero and the selection raises.
\<close>

theorem choose_event_zero_counterexample:
  "event_weight_list (example_system zero_settings [(''raid'', 0)]) = [0, 0, 0, 0, 0] \<and>
   choose_event (example_system zero_settings [(''raid'', 0)]) = Inl ValueError"
  by (simp add: choose_event_def rng_choices_def accumulate_def event_weight_list_def Let_def dict_get_def
       zero_settings_def example_system_def example_settings_def ALL_EVENTS_def)

section \<open>A settlement whose tile is missing\<close>

text \<open>
  Claim C8, as amended. For every variant, when the settlement has a location and the tile
  lookup returns nothing, \<open>apply\<close> leaves the world unchanged and applies to the settlement
  exactly the arithmetic damage rules that precede the tile lookup. The Raid rule that sets
  buildings to 0 above severity 1.3 sits inside the branch of a found tile and is skipped
  with the terrain mutation.
\<close>

theorem apply_event_missing_tile:
  assumes "location st = Some loc" and "world_get w loc = None"
  shows "apply_event mk ev st w
           = Inr (damage_rules ev (severity mk st w) (flood_noise mk st w) st, w)"
proof (cases ev)
  case Flood
  obtain x y where "loc = (x, y)" by (cases loc)
  then show ?thesis using Flood assms
    by (simp add: Flood_apply_def rng_randint_def flood_noise_def Let_def)
next
  case Drought
  then show ?thesis using assms by (simp add: Drought_apply_def Let_def)
next
  case Raid
  then show ?thesis using assms by (simp add: Raid_apply_def Let_def)
next
  case Earthquake
  then show ?thesis using assms by (simp add: Earthquake_apply_def Let_def)
next
  case Hurricane
  then show ?thesis using assms by (simp add: Hurricane_apply_def Let_def)
qed

theorem apply_event_missing_tile_witness:
  "location (example_state 0) = Some (0, 0) \<and>
   world_get (example_world (1 / 2) 0 Map.empty) (0, 0) = None \<and>
   apply_event mk0 Raid (example_state 0) (example_world (1 / 2) 0 Map.empty)
     = Inr ((example_state 0)\<lparr>resources := 76, buildings := 3\<rparr>,
            example_world (1 / 2) 0 Map.empty)"
  using apply_event_missing_tile [of "example_state 0" "(0, 0)"
          "example_world (1 / 2) 0 Map.empty" mk0 Raid]
  by (simp add: severity_example py_int_def Let_def world_get_def example_state_fields
        example_world_fields)

text \<open>
  The claim as stated fails: a raid at severity 1.62 on a settlement with defenses 5 and no
  tile leaves all 10 buildings standing, where the same raid with the tile present leaves 0.
\<close>

theorem raid_missing_tile_counterexample:
  "world_get (example_world (1 / 2) 0 Map.empty) (0, 0) = None \<and>
   13 / 10 < severity mk0 (example_state 5) (example_world (1 / 2) 0 Map.empty) \<and>
   map_option buildings
     (state_after (apply_event mk0 Raid (example_state 5) (example_world (1 / 2) 0 Map.empty)))
     = Some 10 \<and>
   map_option buildings
     (state_after (apply_event mk0 Raid (example_state 5)
                     (example_world (1 / 2) 0 [(0, 0) \<mapsto> river_tile])))
     = Some 0"
  by (simp add: severity_example Raid_apply_def state_after_def world_get_def Let_def py_int_def
        example_state_fields example_world_fields example_settings_fields)

section \<open>Reproducible runs\<close>

lemma agree_tail:
  assumes "agree (Suc k) g g'"
  shows "g 0 = g' 0" and "agree k (rng_tail g) (rng_tail g')"
  using assms by (auto simp: agree_def rng_tail_def)

lemma agree_weaken: "agree k g g' \<Longrightarrow> j \<le> k \<Longrightarrow> agree j g g'"
  by (auto simp: agree_def)

lemma same_but_rng_weaken: "same_but_rng k a b \<Longrightarrow> j \<le> k \<Longrightarrow> same_but_rng j a b"
  by (auto simp: same_but_rng_def intro: agree_weaken)

lemma schedule_next_agree:
  assumes "same_but_rng (Suc k) a b"
  shows "(\<exists>e. schedule_next a = Inl e \<and> schedule_next b = Inl e) \<or>
         (\<exists>t a' b'. schedule_next a = Inr (t, a') \<and> schedule_next b = Inr (t, b') \<and>
                    same_but_rng k a' b')"
proof -
  from assms have s: "es_settings a = es_settings b" "turn_counter a = turn_counter b"
    "event_weights a = event_weights b" "next_event_turn a = next_event_turn b"
    and g: "agree (Suc k) (rng a) (rng b)"
    by (simp_all add: same_but_rng_def)
  note t = agree_tail [OF g]
  show ?thesis
  proof (cases "max_base (es_settings a) < min_base (es_settings a)")
    case True
    then show ?thesis using s by (simp add: schedule_next_def rng_randint_def)
  next
    case False
    then show ?thesis using s t
      by (simp add: schedule_next_def rng_randint_def Let_def same_but_rng_def)
  qed
qed

lemma choose_event_agree:
  assumes "same_but_rng (Suc k) a b"
  shows "(\<exists>e. choose_event a = Inl e \<and> choose_event b = Inl e) \<or>
         (\<exists>ev a' b'. choose_event a = Inr (ev, a') \<and> choose_event b = Inr (ev, b') \<and>
                     same_but_rng k a' b')"
proof -
  from assms have s: "es_settings a = es_settings b" "turn_counter a = turn_counter b"
    "event_weights a = event_weights b" "next_event_turn a = next_event_turn b"
    and g: "agree (Suc k) (rng a) (rng b)"
    by (simp_all add: same_but_rng_def)
  note t = agree_tail [OF g]
  have w: "event_weight_list a = event_weight_list b"
    using s by (simp add: event_weight_list_def)
  show ?thesis
  proof (cases "sum_list (event_weight_list a) \<le> 0")
    case True
    then show ?thesis using w
      by (simp add: choose_event_def rng_choices_events)
  next
    case False
    then show ?thesis using w s t
      by (simp add: choose_event_def rng_choices_events rng_random_def same_but_rng_def)
  qed
qed

lemma advance_turn_agree:
  assumes "same_but_rng (Suc (Suc k)) a b"
  shows "(\<exists>e. advance_turn mk a st w = Inl e \<and> advance_turn mk b st w = Inl e) \<or>
         (\<exists>fired a' b' st' w'.
            advance_turn mk a st w = Inr (fired, a', st', w') \<and>
            advance_turn mk b st w = Inr (fired, b', st', w') \<and> same_but_rng k a' b')"
proof -
  let ?a = "a\<lparr>turn_counter := turn_counter a + 1\<rparr>"
  let ?b = "b\<lparr>turn_counter := turn_counter b + 1\<rparr>"
  have ab: "same_but_rng (Suc (Suc k)) ?a ?b" using assms by (simp add: same_but_rng_def)
  then have f: "next_event_turn ?a = next_event_turn ?b" "turn_counter ?a = turn_counter ?b"
    by (simp_all add: same_but_rng_def)
  show ?thesis
  proof (cases "next_event_turn ?a \<le> turn_counter ?a")
    case False
    then have "advance_turn mk a st w = Inr (None, ?a, st, w)"
      "advance_turn mk b st w = Inr (None, ?b, st, w)"
      using f by (simp_all add: advance_turn_def Let_def)
    moreover have "same_but_rng k ?a ?b" using ab by (rule same_but_rng_weaken) simp
    ultimately show ?thesis by blast
  next
    case True
    then have tb: "next_event_turn ?b \<le> turn_counter ?b" using f by simp
    from choose_event_agree [OF ab] show ?thesis
    proof (elim disjE exE conjE)
      fix e assume "choose_event ?a = Inl e" "choose_event ?b = Inl e"
      then show ?thesis using True tb by (simp add: advance_turn_def Let_def)
    next
      fix ev a1 b1
      assume c: "choose_event ?a = Inr (ev, a1)" "choose_event ?b = Inr (ev, b1)"
        and r: "same_but_rng (Suc k) a1 b1"
      show ?thesis
      proof (cases "apply_event mk ev st w")
        case (Inl e)
        then show ?thesis using c True tb by (simp add: advance_turn_def Let_def)
      next
        case (Inr p)
        obtain st1 w1 where p: "p = (st1, w1)" by (cases p)
        from schedule_next_agree [OF r] show ?thesis
        proof (elim disjE exE conjE)
          fix e assume "schedule_next a1 = Inl e" "schedule_next b1 = Inl e"
          then show ?thesis using c True tb Inr p by (simp add: advance_turn_def Let_def)
        next
          fix t a2 b2
          assume n: "schedule_next a1 = Inr (t, a2)" "schedule_next b1 = Inr (t, b2)"
            and r2: "same_but_rng k a2 b2"
          have "advance_turn mk a st w = Inr (Some ev, a2\<lparr>next_event_turn := t\<rparr>, st1, w1)"
            "advance_turn mk b st w = Inr (Some ev, b2\<lparr>next_event_turn := t\<rparr>, st1, w1)"
            using c True tb Inr p n by (simp_all add: advance_turn_def Let_def)
          moreover have "same_but_rng k (a2\<lparr>next_event_turn := t\<rparr>) (b2\<lparr>next_event_turn := t\<rparr>)"
            using r2 by (simp add: same_but_rng_def)
          ultimately show ?thesis by blast
        qed
      qed
    qed
  qed
qed

lemma run_turns_agree:
  assumes "same_but_rng (2 * n) a b"
  shows "run_outcome (run_turns mk n a st w) = run_outcome (run_turns mk n b st w)"
  using assms
proof (induction n arbitrary: a b st w)
  case 0
  then show ?case by (simp add: run_outcome_def same_but_rng_def)
next
  case (Suc n)
  then have r: "same_but_rng (Suc (Suc (2 * n))) a b" by simp
  from advance_turn_agree [OF r, of mk st w] show ?case
  proof (elim disjE exE conjE)
    fix e assume "advance_turn mk a st w = Inl e" "advance_turn mk b st w = Inl e"
    then show ?case by (simp add: run_outcome_def)
  next
    fix fired a' b' st' w'
    assume s: "advance_turn mk a st w = Inr (fired, a', st', w')"
      "advance_turn mk b st w = Inr (fired, b', st', w')"
      and r': "same_but_rng (2 * n) a' b'"
    have "run_outcome (run_turns mk n a' st' w') = run_outcome (run_turns mk n b' st' w')"
      by (rule Suc.IH [OF r'])
    then show ?case using s
      by (auto simp: run_outcome_def split: sum.splits)
  qed
qed

text \<open>
  Claim C9. Two runs that construct the event system with an explicitly given random source,
  the same settings and weights, and make the same \<open>n\<close> calls of \<open>advance_turn\<close> on the
  same initial settlement state and world return the same sequence of fired events (absent
  ones included) and end in the same settlement state, world and counters, as soon as the two
  sources give the same first \<open>2 n + 1\<close> draws, which is all that the construction and
  \<open>n\<close> calls can consume; sources seeded alike give the same draws throughout. The
  generator the operating system would have seeded plays no part.
\<close>

theorem simulate_reproducible:
  assumes "agree (2 * n + 1) g g'"
  shows "run_outcome (simulate mk entropy s (Some g) weights_arg n state world)
           = run_outcome (simulate mk entropy' s (Some g') weights_arg n state world)"
proof -
  let ?w = "case weights_arg of None \<Rightarrow> default_event_weights
            | Some [] \<Rightarrow> default_event_weights | Some ws \<Rightarrow> ws"
  let ?a = "\<lparr>es_settings = s, rng = g, event_weights = ?w, turn_counter = 0,
             next_event_turn = 0\<rparr>"
  let ?b = "\<lparr>es_settings = s, rng = g', event_weights = ?w, turn_counter = 0,
             next_event_turn = 0\<rparr>"
  have ab: "same_but_rng (Suc (2 * n)) ?a ?b" using assms by (simp add: same_but_rng_def)
  from schedule_next_agree [OF ab] show ?thesis
  proof (elim disjE exE conjE)
    fix e assume "schedule_next ?a = Inl e" "schedule_next ?b = Inl e"
    then show ?thesis by (simp add: simulate_def EventSystem_init_def run_outcome_def)
  next
    fix t a' b'
    assume n: "schedule_next ?a = Inr (t, a')" "schedule_next ?b = Inr (t, b')"
      and r: "same_but_rng (2 * n) a' b'"
    have r': "same_but_rng (2 * n) (a'\<lparr>next_event_turn := t\<rparr>) (b'\<lparr>next_event_turn := t\<rparr>)"
      using r by (simp add: same_but_rng_def)
    have "simulate mk entropy s (Some g) weights_arg n state world
            = run_turns mk n (a'\<lparr>next_event_turn := t\<rparr>) state world"
      "simulate mk entropy' s (Some g') weights_arg n state world
            = run_turns mk n (b'\<lparr>next_event_turn := t\<rparr>) state world"
      using n by (simp_all add: simulate_def EventSystem_init_def)
    then show ?thesis using run_turns_agree [OF r'] by simp
  qed
qed

lemma example_init:
  "EventSystem_init entropy (example_settings 0) (Some g) None
     = (case schedule_next \<lparr>es_settings = example_settings 0, rng = g,
                            event_weights = default_event_weights, turn_counter = 0,
                            next_event_turn = 0\<rparr> of
          Inl e \<Rightarrow> Inl e
        | Inr (t, self) \<Rightarrow> Inr (self\<lparr>next_event_turn := t\<rparr>))"
  by (simp add: EventSystem_init_def)

lemma example_run:
  "run_outcome (simulate mk0 (\<lambda>i. 5) (example_settings 0) (Some (\<lambda>i. 0)) None 1
                  (example_state 0) (example_world 0 0 Map.empty))
     = Inr ([None], example_state 0, example_world 0 0 Map.empty, 1, 37)"
proof -
  have f: "float_mul (float_of_int 30) (5 / 4) = 75 / 2" by (simp add: float_eval)
  show ?thesis
    by (simp add: simulate_def example_init schedule_next_def rng_randint_def example_bases
          advance_turn_def run_outcome_def f py_int_def Let_def)
qed

theorem simulate_reproducible_witness:
  "agree (2 * 1 + 1) (\<lambda>i. 0) late_generator \<and>
   run_outcome (simulate mk0 (\<lambda>i. 9) (example_settings 0) (Some late_generator) None 1
                  (example_state 0) (example_world 0 0 Map.empty))
     = Inr ([None], example_state 0, example_world 0 0 Map.empty, 1, 37)"
proof -
  have a: "agree (2 * 1 + 1) (\<lambda>i. 0) late_generator"
    by (simp add: agree_def late_generator_def)
  from simulate_reproducible [OF a, of mk0 "\<lambda>i. 5" "example_settings 0" None
         "example_state 0" "example_world 0 0 Map.empty" "\<lambda>i. 9"] example_run a
  show ?thesis by simp
qed

end
